theory Spec2Isabelle
  imports
    Main
    "HOL-Library.Char_ord"
    "HOL-Library.List_Lexorder"
    "HOL-Library.Product_Lexorder"
    "HOL-Library.Sublist"
begin

section \<open>Python strings\<close>

text \<open>
  Strings are lists of characters compared by code point, as Python compares \<^verbatim>\<open>str\<close>
  values. A character stands for a code point below 256, and the helpers follow Python on
  that range: \<^verbatim>\<open>str.lower\<close> maps A-Z and the capital letters 192-214 and 216-222 to the
  letter 32 code points higher; the whitespace of \<^verbatim>\<open>str.strip\<close> and of the pattern \<^verbatim>\<open>\s\<close> is
  9-13, 28-32, 133 and 160; \<^verbatim>\<open>\d\<close> is 0-9; a word character of \<^verbatim>\<open>\b\<close> is an alphanumeric
  character or the underscore; \<^verbatim>\<open>str.isdigit\<close> accepts 0-9 and the superscripts 178, 179 and
  185. Text with code points from 256 on is outside the model.
\<close>

definition is_space :: "char \<Rightarrow> bool" where
  "is_space c = (let n = (of_char c :: nat) in
     (9 \<le> n \<and> n \<le> 13) \<or> (28 \<le> n \<and> n \<le> 32) \<or> n = 133 \<or> n = 160)"

definition is_digit :: "char \<Rightarrow> bool" where
  "is_digit c = (let n = (of_char c :: nat) in 48 \<le> n \<and> n \<le> 57)"

definition is_word :: "char \<Rightarrow> bool" where
  "is_word c = (let n = (of_char c :: nat) in
     (48 \<le> n \<and> n \<le> 57) \<or> (65 \<le> n \<and> n \<le> 90) \<or> n = 95 \<or> (97 \<le> n \<and> n \<le> 122) \<or>
     n = 170 \<or> n = 178 \<or> n = 179 \<or> n = 181 \<or> n = 185 \<or> n = 186 \<or>
     (188 \<le> n \<and> n \<le> 190) \<or> (192 \<le> n \<and> n \<le> 214) \<or> (216 \<le> n \<and> n \<le> 246) \<or>
     (248 \<le> n \<and> n \<le> 255))"

definition lower_char :: "char \<Rightarrow> char" where
  "lower_char c = (let n = (of_char c :: nat) in
     if (65 \<le> n \<and> n \<le> 90) \<or> (192 \<le> n \<and> n \<le> 214) \<or> (216 \<le> n \<and> n \<le> 222)
     then char_of (n + 32) else c)"

definition lower :: "string \<Rightarrow> string" where
  "lower s = map lower_char s"

definition strip :: "string \<Rightarrow> string" where
  "strip s = rev (dropWhile is_space (rev (dropWhile is_space s)))"

text \<open>\<^verbatim>\<open>sub in s\<close>: \<open>sub\<close> occurs in \<open>s\<close> as a contiguous substring.\<close>

fun contains :: "string \<Rightarrow> string \<Rightarrow> bool" where
  "contains [] sub = (sub = [])"
| "contains (c # cs) sub = (prefix sub (c # cs) \<or> contains cs sub)"

text \<open>\<^verbatim>\<open>s.isdigit()\<close>: non-empty and made of digit characters only.\<close>

definition is_str_digit :: "char \<Rightarrow> bool" where
  "is_str_digit c = (let n = (of_char c :: nat) in
     (48 \<le> n \<and> n \<le> 57) \<or> n = 178 \<or> n = 179 \<or> n = 185)"

definition isdigit :: "string \<Rightarrow> bool" where
  "isdigit s = (s \<noteq> [] \<and> list_all is_str_digit s)"

text \<open>\<^verbatim>\<open>str(n)\<close> of a non-negative integer: its decimal digits.\<close>

fun str_nat :: "nat \<Rightarrow> string" where
  "str_nat n =
     (if n < 10 then [char_of (48 + n)] else str_nat (n div 10) @ [char_of (48 + n mod 10)])"

declare str_nat.simps [simp del]

definition newline :: string where
  "newline = [CHR 0x0A]"

text \<open>\<^verbatim>\<open>sep.join(parts)\<close>.\<close>

fun join :: "string \<Rightarrow> string list \<Rightarrow> string" where
  "join sep [] = []"
| "join sep [x] = x"
| "join sep (x # y # ys) = x @ sep @ join sep (y # ys)"

section \<open>Data model\<close>

text \<open>
  A timestamp is (year, month, day, second of the day), ordered lexicographically, which is
  the chronological order. \<^verbatim>\<open>pd.Timestamp(year=y, month=m, day=1)\<close> is \<open>(y, m, 1, 0)\<close>; the range
  of years a pandas timestamp can hold is not modelled.
\<close>

type_synonym timestamp = "int \<times> nat \<times> nat \<times> nat"

datatype error = ValueError | KeyError

text \<open>
  \<^verbatim>\<open>Filters\<close> (analytics.py): every field is optional. The fields carry the prefix \<open>f_\<close>
  to keep them apart from the columns of the same name.
\<close>

record Filters =
  f_equipment_id :: "string option"
  f_product_line :: "string option"
  f_symptom_code :: "string option"
  f_start_ts_min :: "timestamp option"
  f_start_ts_max :: "timestamp option"

text \<open>\<^verbatim>\<open>Filters()\<close>: all fields \<^verbatim>\<open>None\<close>.\<close>

definition Filters0 :: Filters where
  "Filters0 = \<lparr>f_equipment_id = None, f_product_line = None, f_symptom_code = None,
               f_start_ts_min = None, f_start_ts_max = None\<rparr>"

text \<open>\<^verbatim>\<open>f or Filters()\<close> for an argument \<^verbatim>\<open>f: Optional[Filters]\<close>.\<close>

fun or_Filters :: "Filters option \<Rightarrow> Filters" where
  "or_Filters None = Filters0"
| "or_Filters (Some f) = f"

text \<open>One row of the work-order table built by \<^verbatim>\<open>build_work_orders\<close>.\<close>

record incident =
  work_order_id :: int
  equipment_id :: string
  product_line :: string
  symptom_code :: string
  description :: string
  start_ts :: timestamp
  end_ts :: timestamp
  technicians :: "string list"
  comments :: string
  n_updates :: nat
  start_date :: "int \<times> nat \<times> nat"
  end_date :: "int \<times> nat \<times> nat"

text \<open>
  The work-order DataFrame: its rows, and whether it has the column \<^verbatim>\<open>technicians\<close>, the
  one column whose presence the analytics functions test. All other columns are present.
\<close>

record frame =
  has_technicians :: bool
  rows :: "incident list"

section \<open>analytics.py\<close>

text \<open>Truth value of an optional string in \<^verbatim>\<open>if f.equipment_id:\<close>: set and not empty.\<close>

fun truthy :: "string option \<Rightarrow> bool" where
  "truthy None = False"
| "truthy (Some s) = (s \<noteq> [])"

text \<open>Boolean-mask selection \<^verbatim>\<open>df[mask]\<close>: the rows are kept in order, the columns unchanged.\<close>

definition select :: "(incident \<Rightarrow> bool) \<Rightarrow> frame \<Rightarrow> frame" where
  "select p df = df\<lparr>rows := filter p (rows df)\<rparr>"

definition filter_work_orders :: "frame \<Rightarrow> Filters \<Rightarrow> frame" where
  "filter_work_orders work_orders f =
     (let df = work_orders;
          df = (if truthy (f_equipment_id f)
                then select (\<lambda>r. Some (equipment_id r) = f_equipment_id f) df else df);
          df = (if truthy (f_product_line f)
                then select (\<lambda>r. Some (product_line r) = f_product_line f) df else df);
          df = (if truthy (f_symptom_code f)
                then select (\<lambda>r. Some (symptom_code r) = f_symptom_code f) df else df);
          df = (case f_start_ts_min f of None \<Rightarrow> df
                | Some lo \<Rightarrow> select (\<lambda>r. start_ts r \<ge> lo) df);
          df = (case f_start_ts_max f of None \<Rightarrow> df
                | Some hi \<Rightarrow> select (\<lambda>r. start_ts r < hi) df)
      in df)"

definition count_incidents :: "frame \<Rightarrow> Filters option \<Rightarrow> nat" where
  "count_incidents work_orders f =
     (let df = filter_work_orders work_orders (or_Filters f) in length (rows df))"

text \<open>\<^verbatim>\<open>Series.nunique()\<close>: the number of distinct values.\<close>

definition nunique :: "'a list \<Rightarrow> nat" where
  "nunique xs = length (remdups xs)"

definition count_distinct_equipment :: "frame \<Rightarrow> Filters option \<Rightarrow> nat" where
  "count_distinct_equipment work_orders f =
     (let df = filter_work_orders work_orders (or_Filters f) in
      if rows df = [] then 0 else nunique (map equipment_id (rows df)))"

definition count_distinct_product_lines :: "frame \<Rightarrow> Filters option \<Rightarrow> nat" where
  "count_distinct_product_lines work_orders f =
     (let df = filter_work_orders work_orders (or_Filters f) in
      if rows df = [] then 0 else nunique (map product_line (rows df)))"

text \<open>
  \<^verbatim>\<open>sort_values([count, name], ascending=[False, True])\<close> on rows (name, count): by count
  descending, then by name ascending.
\<close>

definition sort_count_desc :: "(string \<times> nat) list \<Rightarrow> (string \<times> nat) list" where
  "sort_count_desc xs = sort_key (\<lambda>(k, c). (- int c, k)) xs"

text \<open>
  \<^verbatim>\<open>DataFrame.head(n)\<close> is \<^verbatim>\<open>iloc[:n]\<close>: the first \<open>n\<close> rows, and for a negative \<open>n\<close> all
  rows but the last \<open>-n\<close>.
\<close>

definition head :: "int \<Rightarrow> 'a list \<Rightarrow> 'a list" where
  "head n xs = take (nat (if 0 \<le> n then n else int (length xs) + n)) xs"

text \<open>\<^verbatim>\<open>groupby(col).size()\<close>: one row per distinct key, keys ascending, with the group's size.\<close>

definition groupby_size :: "string list \<Rightarrow> (string \<times> nat) list" where
  "groupby_size ks = map (\<lambda>k. (k, count_list ks k)) (sort (remdups ks))"

definition top_equipment :: "frame \<Rightarrow> int \<Rightarrow> Filters option \<Rightarrow> (string \<times> nat) list" where
  "top_equipment work_orders n f =
     (let df = filter_work_orders work_orders (or_Filters f) in
      if rows df = [] then []
      else head n (sort_count_desc (groupby_size (map equipment_id (rows df)))))"

definition top_symptoms :: "frame \<Rightarrow> int \<Rightarrow> Filters option \<Rightarrow> (string \<times> nat) list" where
  "top_symptoms work_orders n f =
     (let df = filter_work_orders work_orders (or_Filters f) in
      if rows df = [] then []
      else head n (sort_count_desc (groupby_size (map symptom_code (rows df)))))"

text \<open>
  \<^verbatim>\<open>re.escape\<close> makes every character of the keyword literal, so the pattern search of
  \<^verbatim>\<open>str.contains\<close> is the substring test.
\<close>

definition count_mentions :: "frame \<Rightarrow> string \<Rightarrow> Filters option \<Rightarrow> nat" where
  "count_mentions work_orders keyword f =
     (let kw = lower (strip keyword) in
      if kw = [] then 0
      else
        let df = filter_work_orders work_orders (or_Filters f) in
        if rows df = [] then 0
        else
          let hay = map (\<lambda>r. lower (description r @ newline @ comments r)) (rows df)
          in length (filter (\<lambda>h. contains h kw) hay))"

text \<open>
  \<^verbatim>\<open>explode\<close>: one row per element of the list, and one row with a missing value for an empty
  list. \<^verbatim>\<open>dropna\<close> removes the rows with a missing value.
\<close>

definition explode :: "(int \<times> string list) list \<Rightarrow> (int \<times> string option) list" where
  "explode rs =
     concat (map (\<lambda>(w, ts). if ts = [] then [(w, None)] else map (\<lambda>t. (w, Some t)) ts) rs)"

definition dropna :: "(int \<times> string option) list \<Rightarrow> (int \<times> string) list" where
  "dropna rs = concat (map (\<lambda>(w, t). case t of None \<Rightarrow> [] | Some s \<Rightarrow> [(w, s)]) rs)"

text \<open>
  \<^verbatim>\<open>groupby("technicians")["work_order_id"].nunique()\<close>: one row per distinct technician,
  with the number of distinct work-order ids among that technician's rows.
\<close>

definition groupby_nunique :: "(int \<times> string) list \<Rightarrow> (string \<times> nat) list" where
  "groupby_nunique rs =
     map (\<lambda>t. (t, nunique (map fst (filter (\<lambda>r. snd r = t) rs)))) (sort (remdups (map snd rs)))"

definition top_technicians ::
  "frame \<Rightarrow> int \<Rightarrow> Filters option \<Rightarrow> error + (string \<times> nat) list" where
  "top_technicians work_orders n f =
     (let df = filter_work_orders work_orders (or_Filters f) in
      if rows df = [] then Inr []
      else if \<not> has_technicians df then Inl ValueError
      else
        let exploded = explode (map (\<lambda>r. (work_order_id r, technicians r)) (rows df));
            exploded = dropna exploded;
            exploded = map (\<lambda>(w, t). (w, strip t)) exploded;
            exploded = filter (\<lambda>(w, t). t \<noteq> []) exploded
        in Inr (head n (sort_count_desc (groupby_nunique exploded))))"

definition count_distinct_technicians :: "frame \<Rightarrow> Filters option \<Rightarrow> error + nat" where
  "count_distinct_technicians work_orders f =
     (let df = filter_work_orders work_orders (or_Filters f) in
      if rows df = [] then Inr 0
      else if \<not> has_technicians df then Inl ValueError
      else
        let exploded = explode (map (\<lambda>r. (work_order_id r, technicians r)) (rows df));
            vals = map (\<lambda>(w, t). strip t) (dropna exploded);
            vals = filter (\<lambda>t. t \<noteq> []) vals
        in Inr (nunique vals))"

text \<open>
  \<^verbatim>\<open>Series.value_counts()\<close>: one row per distinct value with its frequency, the most frequent
  first. The order among values of equal frequency is not used by the caller, which sorts
  the tied values by code.
\<close>

definition value_counts :: "string list \<Rightarrow> (string \<times> nat) list" where
  "value_counts ks = sort_key (\<lambda>(k, c). - int c) (map (\<lambda>k. (k, count_list ks k)) (remdups ks))"

definition most_common_symptoms :: "frame \<Rightarrow> Filters option \<Rightarrow> (string \<times> nat) list" where
  "most_common_symptoms work_orders f =
     (let df = filter_work_orders work_orders (or_Filters f) in
      if rows df = [] then []
      else
        let vc = value_counts (map symptom_code (rows df)) in
        case vc of
          [] \<Rightarrow> []
        | (_, max_count) # _ \<Rightarrow>
            (let tied = filter (\<lambda>(sym, cnt). cnt = max_count) vc
             in sort_key fst tied))"

section \<open>data.py\<close>

text \<open>
  One row of the event table that \<^verbatim>\<open>load_events\<close> returns: the columns that
  \<^verbatim>\<open>build_work_orders\<close> reads, with the prefix \<open>ev_\<close>. The textual date and time columns are
  only tested for presence, through the column labels of the table.
\<close>

record event =
  ev_work_order_id :: int
  ev_equipment_id :: string
  ev_product_line :: string
  ev_symptom_code :: string
  ev_description :: string
  ev_technician :: string
  ev_comment :: string
  ev_start_ts :: timestamp
  ev_end_ts :: timestamp

record events_frame =
  ev_columns :: "string list"
  ev_rows :: "event list"

definition REQUIRED_COLUMNS :: "string list" where
  "REQUIRED_COLUMNS =
     [''work_order_id'', ''equipment_id'', ''product_line'', ''start_date'', ''start_time'',
      ''end_date'', ''end_time'', ''description'', ''technician'', ''comment'',
      ''symptom_code'']"

text \<open>\<^verbatim>\<open>_validate_columns\<close>: \<^verbatim>\<open>ValueError\<close> when a required column is missing.\<close>

definition validate_columns :: "events_frame \<Rightarrow> error + unit" where
  "validate_columns df =
     (let missing = filter (\<lambda>c. c \<notin> set (ev_columns df)) REQUIRED_COLUMNS
      in if missing \<noteq> [] then Inl ValueError else Inr ())"

text \<open>\<^verbatim>\<open>_concat_comments\<close>: the loop with its variable \<^verbatim>\<open>last\<close>, then the join.\<close>

fun cleaned_comments :: "string list \<Rightarrow> string option \<Rightarrow> string list" where
  "cleaned_comments [] last' = []"
| "cleaned_comments (x # xs) last' =
     (let t = strip x in
      if t = [] then cleaned_comments xs last'
      else if Some t = last' then cleaned_comments xs last'
      else t # cleaned_comments xs (Some t))"

definition concat_comments :: "string list \<Rightarrow> string" where
  "concat_comments s = join newline (cleaned_comments s None)"

text \<open>\<^verbatim>\<open>.dt.date\<close>: the calendar date of a timestamp.\<close>

definition date_of :: "timestamp \<Rightarrow> int \<times> nat \<times> nat" where
  "date_of ts = (case ts of (y, mon, d, s) \<Rightarrow> (y, mon, d))"

text \<open>
  The aggregation of one group, given as its first row and the rest: \<^verbatim>\<open>first\<close> of the stable
  fields, \<^verbatim>\<open>min\<close> and \<^verbatim>\<open>max\<close> of the timestamps, the sorted set of the technicians whose
  stripped name is not empty, the joined comments and the group's size.
\<close>

definition agg_group :: "int \<Rightarrow> event \<Rightarrow> event list \<Rightarrow> incident" where
  "agg_group k e es =
     (let start = fold min (map ev_start_ts es) (ev_start_ts e);
          end' = fold max (map ev_end_ts es) (ev_end_ts e)
      in \<lparr>work_order_id = k,
          equipment_id = ev_equipment_id e,
          product_line = ev_product_line e,
          symptom_code = ev_symptom_code e,
          description = ev_description e,
          start_ts = start,
          end_ts = end',
          technicians = sort (remdups (filter (\<lambda>x. strip x \<noteq> []) (map ev_technician (e # es)))),
          comments = concat_comments (map ev_comment (e # es)),
          n_updates = length (e # es),
          start_date = date_of start,
          end_date = date_of end'\<rparr>)"

text \<open>
  \<^verbatim>\<open>build_work_orders\<close>: validation, the stable sort by (work_order_id, start_ts, end_ts),
  then one aggregated row per group of \<^verbatim>\<open>groupby("work_order_id")\<close>, the groups in ascending
  order of the id. Sorting a table without the columns \<^verbatim>\<open>start_ts\<close> and \<^verbatim>\<open>end_ts\<close> raises
  \<^verbatim>\<open>KeyError\<close>.
\<close>

definition build_work_orders :: "events_frame \<Rightarrow> error + frame" where
  "build_work_orders events =
     (case validate_columns events of
        Inl e \<Rightarrow> Inl e
      | Inr u \<Rightarrow>
          if ''start_ts'' \<notin> set (ev_columns events) \<or> ''end_ts'' \<notin> set (ev_columns events)
          then Inl KeyError
          else
            let ev = sort_key (\<lambda>e. (ev_work_order_id e, ev_start_ts e, ev_end_ts e))
                       (ev_rows events);
                keys = sort (remdups (map ev_work_order_id ev));
                agg = concat (map (\<lambda>k. case filter (\<lambda>e. ev_work_order_id e = k) ev of
                                          [] \<Rightarrow> []
                                        | e # es \<Rightarrow> [agg_group k e es]) keys)
            in Inr \<lparr>has_technicians = True, rows = agg\<rparr>)"

section \<open>Regular expressions of app.py\<close>

text \<open>
  The patterns of app.py use literals, character classes, \<^verbatim>\<open>\b\<close>, alternation, optional
  parts, greedy repetition of a class and one capturing group. A match state is the
  character before the position (for \<^verbatim>\<open>\b\<close>), the rest of the text and the text captured
  by the group. \<open>rmatch\<close> returns the states a pattern can end in, in the order Python's
  backtracking matcher tries them, so the first is the match Python reports.
\<close>

datatype cclass = Digit | Space | Quote | NotQuote | KwChar

fun in_class :: "cclass \<Rightarrow> char \<Rightarrow> bool" where
  "in_class Digit c = is_digit c"
| "in_class Space c = is_space c"
| "in_class Quote c = (c = CHR 0x27 \<or> c = CHR 0x22)"
| "in_class NotQuote c = (\<not> (c = CHR 0x27 \<or> c = CHR 0x22))"
| "in_class KwChar c = (let n = (of_char c :: nat) in
     (97 \<le> n \<and> n \<le> 122) \<or> (48 \<le> n \<and> n \<le> 57) \<or> n = 95 \<or> n = 45)"

datatype regex =
    Lit string
  | Cls cclass
  | Many0 cclass
  | Many1 cclass
  | WordB
  | Seq regex regex
  | Alt regex regex
  | Opt regex
  | Group regex

type_synonym mstate = "char option \<times> string \<times> string option"

text \<open>Greedy repetition of a class: the longest run first, then each shorter one.\<close>

fun greedy :: "cclass \<Rightarrow> char option \<Rightarrow> string \<Rightarrow> string option \<Rightarrow> mstate list" where
  "greedy k prev [] g = [(prev, [], g)]"
| "greedy k prev (c # cs) g =
     (if in_class k c then greedy k (Some c) cs g @ [(prev, c # cs, g)] else [(prev, c # cs, g)])"

definition word_before :: "char option \<Rightarrow> bool" where
  "word_before prev = (case prev of None \<Rightarrow> False | Some c \<Rightarrow> is_word c)"

definition word_after :: "string \<Rightarrow> bool" where
  "word_after rest = (case rest of [] \<Rightarrow> False | c # _ \<Rightarrow> is_word c)"

fun rmatch :: "regex \<Rightarrow> mstate \<Rightarrow> mstate list" where
  "rmatch (Lit w) (prev, rest, g) =
     (if prefix w rest
      then [(if w = [] then prev else Some (last w), drop (length w) rest, g)] else [])"
| "rmatch (Cls k) (prev, rest, g) =
     (case rest of [] \<Rightarrow> [] | c # cs \<Rightarrow> if in_class k c then [(Some c, cs, g)] else [])"
| "rmatch (Many0 k) (prev, rest, g) = greedy k prev rest g"
| "rmatch (Many1 k) (prev, rest, g) =
     (case rest of [] \<Rightarrow> [] | c # cs \<Rightarrow> if in_class k c then greedy k (Some c) cs g else [])"
| "rmatch WordB (prev, rest, g) =
     (if word_before prev \<noteq> word_after rest then [(prev, rest, g)] else [])"
| "rmatch (Seq a b) st = concat (map (rmatch b) (rmatch a st))"
| "rmatch (Alt a b) st = rmatch a st @ rmatch b st"
| "rmatch (Opt a) st = rmatch a st @ [st]"
| "rmatch (Group a) (prev, rest, g) =
     map (\<lambda>(prev', rest', g'). (prev', rest', Some (take (length rest - length rest') rest)))
       (rmatch a (prev, rest, g))"

text \<open>\<^verbatim>\<open>re.search\<close>: the match at the leftmost position that has one.\<close>

fun search_from :: "regex \<Rightarrow> char option \<Rightarrow> string \<Rightarrow> mstate option" where
  "search_from r prev [] = (case rmatch r (prev, [], None) of [] \<Rightarrow> None | m # _ \<Rightarrow> Some m)"
| "search_from r prev (c # cs) =
     (case rmatch r (prev, c # cs, None) of
        [] \<Rightarrow> search_from r (Some c) cs
      | m # _ \<Rightarrow> Some m)"

text \<open>
  \<open>re_search r s\<close> is \<^verbatim>\<open>None\<close> when there is no match and otherwise \<^verbatim>\<open>m.group(1)\<close>; each
  pattern below has one group, which takes part in every match.
\<close>

definition re_search :: "regex \<Rightarrow> string \<Rightarrow> string option" where
  "re_search r s =
     (case search_from r None s of
        None \<Rightarrow> None
      | Some (prev, rest, g) \<Rightarrow> Some (case g of None \<Rightarrow> [] | Some t \<Rightarrow> t))"

fun seqs :: "regex list \<Rightarrow> regex" where
  "seqs [] = Lit []"
| "seqs [r] = r"
| "seqs (r # rs) = Seq r (seqs rs)"

fun alts :: "regex list \<Rightarrow> regex" where
  "alts [] = Lit []"
| "alts [r] = r"
| "alts (r # rs) = Alt r (alts rs)"

text \<open>\<^verbatim>\<open>\b(20\d{2})\b\<close>\<close>

definition year_re :: regex where
  "year_re = seqs [WordB, Group (seqs [Lit ''20'', Cls Digit, Cls Digit]), WordB]"

text \<open>\<^verbatim>\<open>\b(first\s+half|1st\s+half|h1)\b\<close>\<close>

definition first_half_re :: regex where
  "first_half_re =
     seqs [WordB,
           Group (alts [seqs [Lit ''first'', Many1 Space, Lit ''half''],
                        seqs [Lit ''1st'', Many1 Space, Lit ''half''],
                        Lit ''h1'']),
           WordB]"

text \<open>\<^verbatim>\<open>\b(second\s+half|2nd\s+half|h2)\b\<close>\<close>

definition second_half_re :: regex where
  "second_half_re =
     seqs [WordB,
           Group (alts [seqs [Lit ''second'', Many1 Space, Lit ''half''],
                        seqs [Lit ''2nd'', Many1 Space, Lit ''half''],
                        Lit ''h2'']),
           WordB]"

text \<open>
  \<^verbatim>\<open>\b(jan(?:uary)?|feb(?:ruary)?|mar(?:ch)?|apr(?:il)?|may|jun(?:e)?|jul(?:y)?|aug(?:ust)?|\<close>
  \<^verbatim>\<open>sep(?:t)?(?:ember)?|oct(?:ober)?|nov(?:ember)?|dec(?:ember)?)\b\<close>
\<close>

definition month_re :: regex where
  "month_re =
     seqs [WordB,
           Group (alts [seqs [Lit ''jan'', Opt (Lit ''uary'')],
                        seqs [Lit ''feb'', Opt (Lit ''ruary'')],
                        seqs [Lit ''mar'', Opt (Lit ''ch'')],
                        seqs [Lit ''apr'', Opt (Lit ''il'')],
                        Lit ''may'',
                        seqs [Lit ''jun'', Opt (Lit ''e'')],
                        seqs [Lit ''jul'', Opt (Lit ''y'')],
                        seqs [Lit ''aug'', Opt (Lit ''ust'')],
                        seqs [Lit ''sep'', Opt (Lit ''t''), Opt (Lit ''ember'')],
                        seqs [Lit ''oct'', Opt (Lit ''ober'')],
                        seqs [Lit ''nov'', Opt (Lit ''ember'')],
                        seqs [Lit ''dec'', Opt (Lit ''ember'')]]),
           WordB]"

text \<open>\<^verbatim>\<open>['\"]([^'\"]+)['\"]\<close>\<close>

definition quoted_re :: regex where
  "quoted_re = seqs [Cls Quote, Group (Many1 NotQuote), Cls Quote]"

text \<open>
  \<^verbatim>\<open>\b(?:mention|mentions|contain|contains|containing)\b\s+(?:a|an|the)?\s*([a-z0-9_-]+)\<close>
\<close>

definition mention_re :: regex where
  "mention_re =
     seqs [WordB,
           alts [Lit ''mention'', Lit ''mentions'', Lit ''contain'', Lit ''contains'',
                 Lit ''containing''],
           WordB, Many1 Space,
           Opt (alts [Lit ''a'', Lit ''an'', Lit ''the'']),
           Many0 Space,
           Group (Many1 KwChar)]"

section \<open>app.py\<close>

text \<open>
  The helpers \<^verbatim>\<open>_year_from_query\<close>, \<^verbatim>\<open>_half_year_range_from_query\<close>,
  \<^verbatim>\<open>_month_range_from_query\<close>, \<^verbatim>\<open>_extract_equipment_id\<close>, \<^verbatim>\<open>_extract_product_line\<close>,
  \<^verbatim>\<open>_extract_symptom_code\<close> and the table \<^verbatim>\<open>_MONTH_MAP\<close> are written without the leading
  underscore.
\<close>

definition MONTH_MAP :: "(string \<times> nat) list" where
  "MONTH_MAP =
     [(''jan'', 1), (''january'', 1),
      (''feb'', 2), (''february'', 2),
      (''mar'', 3), (''march'', 3),
      (''apr'', 4), (''april'', 4),
      (''may'', 5),
      (''jun'', 6), (''june'', 6),
      (''jul'', 7), (''july'', 7),
      (''aug'', 8), (''august'', 8),
      (''sep'', 9), (''sept'', 9), (''september'', 9),
      (''oct'', 10), (''october'', 10),
      (''nov'', 11), (''november'', 11),
      (''dec'', 12), (''december'', 12)]"

text \<open>\<^verbatim>\<open>int(s)\<close> on a string of decimal digits.\<close>

definition int_of_digits :: "string \<Rightarrow> int" where
  "int_of_digits s = foldl (\<lambda>a c. 10 * a + (int (of_char c) - 48)) 0 s"

definition year_from_query :: "string \<Rightarrow> int \<Rightarrow> int" where
  "year_from_query ql default_year =
     (case re_search year_re ql of Some g \<Rightarrow> int_of_digits g | None \<Rightarrow> default_year)"

definition half_year_range_from_query ::
  "string \<Rightarrow> int \<Rightarrow> timestamp option \<times> timestamp option" where
  "half_year_range_from_query q default_year =
     (let ql = lower q;
          y = year_from_query ql default_year
      in if re_search first_half_re ql \<noteq> None then (Some (y, 1, 1, 0), Some (y, 7, 1, 0))
         else if re_search second_half_re ql \<noteq> None
              then (Some (y, 7, 1, 0), Some (y + 1, 1, 1, 0))
         else (None, None))"

text \<open>\<^verbatim>\<open>start + pd.offsets.MonthBegin(1)\<close> for the first day of a month: the first day of the next.\<close>

definition month_begin_after :: "timestamp \<Rightarrow> timestamp" where
  "month_begin_after ts =
     (case ts of (y, mon, d, s) \<Rightarrow> if mon = 12 then (y + 1, 1, 1, 0) else (y, mon + 1, 1, 0))"

definition month_range_from_query ::
  "string \<Rightarrow> int \<Rightarrow> error + (timestamp option \<times> timestamp option)" where
  "month_range_from_query q default_year =
     (let ql = lower q in
      case re_search month_re ql of
        None \<Rightarrow> Inr (None, None)
      | Some g \<Rightarrow>
          (case map_of MONTH_MAP g of
             None \<Rightarrow> Inl KeyError
           | Some mon \<Rightarrow>
               (let y = year_from_query ql default_year;
                    start = (y, mon, 1, 0);
                    end' = month_begin_after start
                in Inr (Some start, Some end'))))"

text \<open>
  The known values are Python sets; the list gives the order in which the loop meets them.
\<close>

definition extract_equipment_id :: "string \<Rightarrow> string list \<Rightarrow> string option" where
  "extract_equipment_id q known_equipment =
     (let ql = lower q in find (\<lambda>eq. contains ql (lower eq)) known_equipment)"

definition extract_product_line :: "string \<Rightarrow> string list \<Rightarrow> string option" where
  "extract_product_line q known_product_lines =
     (let ql = lower q in find (\<lambda>pl. contains ql (lower pl)) known_product_lines)"

definition phrase_map :: "(string \<times> string) list" where
  "phrase_map =
     [(''pressure fault'', ''PRESSURE_FAULT''),
      (''spindle timeout'', ''SPINDLE_TIMEOUT''),
      (''bearing wear'', ''BEARING_WEAR''),
      (''hydraulic leak'', ''HYDRAULIC_LEAK''),
      (''alignment drift'', ''ALIGNMENT_DRIFT''),
      (''sensor failure'', ''SENSOR_FAILURE'')]"

definition extract_symptom_code :: "string \<Rightarrow> string list \<Rightarrow> string option" where
  "extract_symptom_code q known_symptoms =
     (let ql = lower q in
      case find (\<lambda>s. contains ql (lower s)) known_symptoms of
        Some s \<Rightarrow> Some s
      | None \<Rightarrow>
          map_option snd
            (find (\<lambda>(phrase, code). contains ql phrase \<and> code \<in> set known_symptoms)
               phrase_map))"

definition extract_mention_keyword :: "string \<Rightarrow> string" where
  "extract_mention_keyword q =
     (case re_search quoted_re q of
        Some g \<Rightarrow> strip g
      | None \<Rightarrow>
          (let ql = lower q in
           if contains ql ''leak'' then ''leak''
           else if contains ql ''bearing'' then ''bearing''
           else (case re_search mention_re ql of Some g \<Rightarrow> strip g | None \<Rightarrow> [])))"

definition extract_filters ::
  "string \<Rightarrow> string list \<Rightarrow> string list \<Rightarrow> string list \<Rightarrow> int \<Rightarrow> error + Filters" where
  "extract_filters q known_equipment known_product_lines known_symptoms default_year =
     (let eq = extract_equipment_id q known_equipment;
          pl = extract_product_line q known_product_lines;
          sym = extract_symptom_code q known_symptoms;
          (start_min, start_max) = half_year_range_from_query q default_year
      in case (if start_min = None \<and> start_max = None
               then month_range_from_query q default_year
               else Inr (start_min, start_max)) of
           Inl e \<Rightarrow> Inl e
         | Inr (start_min, start_max) \<Rightarrow>
             Inr \<lparr>f_equipment_id = eq, f_product_line = pl, f_symptom_code = sym,
                  f_start_ts_min = start_min, f_start_ts_max = start_max\<rparr>)"

definition intent :: "string \<Rightarrow> string" where
  "intent q =
     (let ql = lower q in
      if contains ql ''mention'' \<or> contains ql ''mentions'' \<or>
         contains ql ''contain'' \<or> contains ql ''contains'' \<or> contains ql ''containing''
      then ''count_mentions''
      else if contains ql ''which one had more'' then ''compare_equipment''
      else if contains ql ''which technician handled the most'' then ''top_technician''
      else if contains ql ''how many different technicians'' then ''count_distinct_technicians''
      else if contains ql ''distinct equipment'' \<or> contains ql ''different equipment''
      then ''count_distinct_equipment''
      else if contains ql ''most common symptom'' then ''most_common_symptom''
      else if contains ql ''which equipment has the most incidents'' then ''top_equipment''
      else if contains ql ''how many'' \<or> contains ql ''number of'' then ''count_incidents''
      else if prefix ''what about'' (strip ql) then ''what_about''
      else ''unknown'')"

section \<open>webapp.py and the command-line loop\<close>

text \<open>
  The module state of webapp.py and of the loop of app.py: the work-order table, the known
  values and the default year derived from it at start-up, the switch \<^verbatim>\<open>USE_LLM\<close>, whether
  the language-model endpoint answers, and the text it returns for a question and a
  deterministic answer.
\<close>

record globals =
  work_orders :: frame
  known_equipment :: "string list"
  known_product_lines :: "string list"
  known_symptoms :: "string list"
  default_year :: int
  USE_LLM :: bool
  llm_available :: bool
  synthesize_with_llm :: "string \<Rightarrow> string \<Rightarrow> string"

definition maybe_llm :: "globals \<Rightarrow> string \<Rightarrow> string \<Rightarrow> string" where
  "maybe_llm G user_question deterministic_answer =
     (if deterministic_answer = [] then deterministic_answer
      else if isdigit (strip deterministic_answer) then deterministic_answer
      else if USE_LLM G \<and> llm_available G
           then synthesize_with_llm G user_question deterministic_answer
      else deterministic_answer)"

text \<open>The answer string of the most-common-symptom handlers.\<close>

definition symptoms_answer :: "(string \<times> nat) list \<Rightarrow> string" where
  "symptoms_answer tied =
     (case tied of
        [] \<Rightarrow> []
      | (s, n) # rest \<Rightarrow>
          (let names = map fst tied in
           if length names = 1 then s @ '' with '' @ str_nat n @ '' work orders''
           else join '' and '' names @ '', each with '' @ str_nat n @ '' work orders''))"

definition answer_question :: "globals \<Rightarrow> string \<Rightarrow> error + string" where
  "answer_question G user0 =
     (let user = strip user0 in
      if user = [] then Inr []
      else
        case extract_filters user (known_equipment G) (known_product_lines G)
               (known_symptoms G) (default_year G) of
          Inl e \<Rightarrow> Inl e
        | Inr f \<Rightarrow>
            (let it = intent user in
             if it = ''count_mentions'' then
               (let kw = extract_mention_keyword user;
                    n = count_mentions (work_orders G) kw (Some f)
                in Inr (maybe_llm G user (str_nat n)))
             else if it = ''count_incidents'' then
               (let n = count_incidents (work_orders G) (Some f)
                in Inr (maybe_llm G user (str_nat n)))
             else if it = ''count_distinct_technicians'' then
               (case count_distinct_technicians (work_orders G) (Some f) of
                  Inl e \<Rightarrow> Inl e
                | Inr n \<Rightarrow> Inr (maybe_llm G user (str_nat n)))
             else if it = ''most_common_symptom'' then
               (let tied = most_common_symptoms (work_orders G) (Some f) in
                if tied = [] then Inr []
                else Inr (maybe_llm G user (symptoms_answer tied)))
             else if it = ''top_equipment'' then
               (case top_equipment (work_orders G) 1 (Some Filters0) of
                  [] \<Rightarrow> Inr []
                | (eq, n) # rest \<Rightarrow>
                    Inr (maybe_llm G user (eq @ '' with '' @ str_nat n @ '' work orders'')))
             else if it = ''top_technician'' then
               (case top_technicians (work_orders G) 1 (Some Filters0) of
                  Inl e \<Rightarrow> Inl e
                | Inr [] \<Rightarrow> Inr []
                | Inr ((tech, n) # rest) \<Rightarrow>
                    Inr (maybe_llm G user (tech @ '' with '' @ str_nat n @ '' work orders'')))
             else Inr []))"

text \<open>
  One turn of the loop of app.py: an empty line is skipped, \<^verbatim>\<open>exit\<close> and \<^verbatim>\<open>quit\<close> end the
  loop, any other line prints one answer.
\<close>

datatype turn = Skip | Quit | Print string

definition cli_turn :: "globals \<Rightarrow> string \<Rightarrow> error + turn" where
  "cli_turn G line =
     (let user = strip line in
      if user = [] then Inr Skip
      else if lower user = ''exit'' \<or> lower user = ''quit'' then Inr Quit
      else
        case extract_filters user (known_equipment G) (known_product_lines G)
               (known_symptoms G) (default_year G) of
          Inl e \<Rightarrow> Inl e
        | Inr f \<Rightarrow>
            (let it = intent user in
             if it = ''count_mentions'' then
               (let kw = extract_mention_keyword user;
                    n = count_mentions (work_orders G) kw (Some f)
                in Inr (Print (maybe_llm G user (str_nat n))))
             else if it = ''count_incidents'' then
               (let n = count_incidents (work_orders G) (Some f)
                in Inr (Print (maybe_llm G user (str_nat n))))
             else if it = ''count_distinct_equipment'' then
               (let df = work_orders G;
                    df = (if truthy (f_equipment_id f)
                          then select (\<lambda>r. Some (equipment_id r) = f_equipment_id f) df else df);
                    df = (if truthy (f_product_line f)
                          then select (\<lambda>r. Some (product_line r) = f_product_line f) df else df);
                    df = (if truthy (f_symptom_code f)
                          then select (\<lambda>r. Some (symptom_code r) = f_symptom_code f) df else df);
                    df = (case f_start_ts_min f of None \<Rightarrow> df
                          | Some lo \<Rightarrow> select (\<lambda>r. start_ts r \<ge> lo) df);
                    df = (case f_start_ts_max f of None \<Rightarrow> df
                          | Some hi \<Rightarrow> select (\<lambda>r. start_ts r < hi) df);
                    n = nunique (map equipment_id (rows df))
                in Inr (Print (maybe_llm G user (str_nat n))))
             else if it = ''count_distinct_technicians'' then
               (case count_distinct_technicians (work_orders G) (Some f) of
                  Inl e \<Rightarrow> Inl e
                | Inr n \<Rightarrow> Inr (Print (maybe_llm G user (str_nat n))))
             else if it = ''most_common_symptom'' then
               (let tied = most_common_symptoms (work_orders G) (Some f) in
                if tied = [] then Inr (Print [])
                else Inr (Print (maybe_llm G user (symptoms_answer tied))))
             else if it = ''top_equipment'' then
               (case top_equipment (work_orders G) 1 (Some Filters0) of
                  [] \<Rightarrow> Inr (Print [])
                | (eq, n) # rest \<Rightarrow>
                    Inr (Print (maybe_llm G user (eq @ '' with '' @ str_nat n @ '' work orders''))))
             else if it = ''top_technician'' then
               (case top_technicians (work_orders G) 1 (Some Filters0) of
                  Inl e \<Rightarrow> Inl e
                | Inr [] \<Rightarrow> Inr (Print [])
                | Inr ((tech, n) # rest) \<Rightarrow>
                    Inr (Print (maybe_llm G user (tech @ '' with '' @ str_nat n @ '' work orders''))))
             else Inr (Print [])))"

section \<open>Properties stated over the model\<close>

text \<open>The conjunctive predicate a filter stands for: every populated field must hold.\<close>

definition passes :: "Filters \<Rightarrow> incident \<Rightarrow> bool" where
  "passes f r \<longleftrightarrow>
     (truthy (f_equipment_id f) \<longrightarrow> Some (equipment_id r) = f_equipment_id f) \<and>
     (truthy (f_product_line f) \<longrightarrow> Some (product_line r) = f_product_line f) \<and>
     (truthy (f_symptom_code f) \<longrightarrow> Some (symptom_code r) = f_symptom_code f) \<and>
     (\<forall>lo. f_start_ts_min f = Some lo \<longrightarrow> lo \<le> start_ts r) \<and>
     (\<forall>hi. f_start_ts_max f = Some hi \<longrightarrow> start_ts r < hi)"

text \<open>
  A filter \<open>g\<close> narrows a filter \<open>f\<close> when every field populated in \<open>f\<close> holds the same value
  in \<open>g\<close>; \<open>g\<close> may populate further fields.
\<close>

definition narrows :: "Filters \<Rightarrow> Filters \<Rightarrow> bool" where
  "narrows g f \<longleftrightarrow>
     (f_equipment_id f \<noteq> None \<longrightarrow> f_equipment_id g = f_equipment_id f) \<and>
     (f_product_line f \<noteq> None \<longrightarrow> f_product_line g = f_product_line f) \<and>
     (f_symptom_code f \<noteq> None \<longrightarrow> f_symptom_code g = f_symptom_code f) \<and>
     (f_start_ts_min f \<noteq> None \<longrightarrow> f_start_ts_min g = f_start_ts_min f) \<and>
     (f_start_ts_max f \<noteq> None \<longrightarrow> f_start_ts_max g = f_start_ts_max f)"

text \<open>Frequency of a symptom code in a frame, and the highest frequency of any code in it.\<close>

definition frequency :: "frame \<Rightarrow> string \<Rightarrow> nat" where
  "frequency df s = count_list (map symptom_code (rows df)) s"

definition max_frequency :: "frame \<Rightarrow> nat" where
  "max_frequency df = Max (frequency df ` symptom_code ` set (rows df))"

text \<open>
  An incident mentions a keyword when the keyword occurs, letter case ignored, as a
  contiguous substring of its description, a newline and its comments.
\<close>

definition mentions :: "string \<Rightarrow> incident \<Rightarrow> bool" where
  "mentions kw r \<longleftrightarrow> sublist (lower kw) (lower (description r @ newline @ comments r))"

text \<open>
  The mention count as the specification words it: the keyword is searched as given, and
  only the empty keyword gives 0 unconditionally.
\<close>

definition mention_count_as_specified :: "frame \<Rightarrow> string \<Rightarrow> Filters option \<Rightarrow> nat" where
  "mention_count_as_specified wo keyword f =
     (if keyword = [] then 0
      else length (filter (mentions keyword)
                     (rows (filter_work_orders wo (or_Filters f)))))"

text \<open>
  The technician names of a set of incidents (stripped, blank ones left out), and the number
  of distinct work orders a technician appears in.
\<close>

definition technician_names :: "incident list \<Rightarrow> string set" where
  "technician_names F = {strip t | r t. r \<in> set F \<and> t \<in> set (technicians r) \<and> strip t \<noteq> []}"

definition distinct_orders :: "incident list \<Rightarrow> string \<Rightarrow> nat" where
  "distinct_orders F t = card (work_order_id ` {r \<in> set F. t \<in> strip ` set (technicians r)})"

text \<open>Ranking order: higher count first, then the name ascending.\<close>

definition ranks_before :: "string \<times> nat \<Rightarrow> string \<times> nat \<Rightarrow> bool" where
  "ranks_before x y \<longleftrightarrow> snd x > snd y \<or> (snd x = snd y \<and> fst x \<le> fst y)"

text \<open>
  An ordered cascade of (test, tag) rules over a text: the first rule whose test holds gives
  the tag, and \<open>unknown\<close> is the tag when none holds.
\<close>

fun first_match :: "((string \<Rightarrow> bool) \<times> string) list \<Rightarrow> string \<Rightarrow> string" where
  "first_match [] t = ''unknown''"
| "first_match ((p, tag) # rules) t = (if p t then tag else first_match rules t)"

definition any_of :: "string list \<Rightarrow> string \<Rightarrow> bool" where
  "any_of subs t = list_ex (contains t) subs"

text \<open>The substring rules of the intent classifier, in their order of precedence.\<close>

definition substring_rules :: "((string \<Rightarrow> bool) \<times> string) list" where
  "substring_rules =
     [(any_of [''mention'', ''mentions'', ''contain'', ''contains'', ''containing''],
         ''count_mentions''),
      (any_of [''which one had more''], ''compare_equipment''),
      (any_of [''which technician handled the most''], ''top_technician''),
      (any_of [''how many different technicians''], ''count_distinct_technicians''),
      (any_of [''distinct equipment'', ''different equipment''], ''count_distinct_equipment''),
      (any_of [''most common symptom''], ''most_common_symptom''),
      (any_of [''which equipment has the most incidents''], ''top_equipment''),
      (any_of [''how many'', ''number of''], ''count_incidents'')]"

text \<open>
  The cascade as the specification words it: the last rule asks that the lower-cased text
  starts with \<open>what about\<close>.
\<close>

definition intent_as_specified :: "string \<Rightarrow> string" where
  "intent_as_specified q =
     first_match (substring_rules @ [(prefix ''what about'', ''what_about'')]) (lower q)"

text \<open>
  The cascade of the code: the last rule asks that the lower-cased text, with its
  surrounding whitespace removed, starts with \<open>what about\<close>.
\<close>

definition intent_cascade :: "string \<Rightarrow> string" where
  "intent_cascade q =
     first_match (substring_rules @ [(\<lambda>t. prefix ''what about'' (strip t), ''what_about'')])
       (lower q)"

text \<open>The answer string for the first entry of a ranking, empty for an empty ranking.\<close>

definition top_entry_answer :: "(string \<times> nat) list \<Rightarrow> string" where
  "top_entry_answer ranking =
     (case ranking of [] \<Rightarrow> [] | (k, n) # rest \<Rightarrow> k @ '' with '' @ str_nat n @ '' work orders'')"

text \<open>
  The deterministic answer of the two top-ranking intents, computed from the table alone
  with no filter.
\<close>

definition global_top_answer :: "frame \<Rightarrow> string \<Rightarrow> error + string" where
  "global_top_answer wo it =
     (if it = ''top_equipment'' then Inr (top_entry_answer (top_equipment wo 1 None))
      else map_sum id top_entry_answer (top_technicians wo 1 None))"

text \<open>
  An event table is valid for \<open>build_work_orders\<close> when it has the required columns and the
  two parsed timestamp columns. The events of a work order are the rows with its id.
\<close>

definition valid_events :: "events_frame \<Rightarrow> bool" where
  "valid_events events \<longleftrightarrow>
     set REQUIRED_COLUMNS \<union> {''start_ts'', ''end_ts''} \<subseteq> set (ev_columns events)"

definition events_of :: "events_frame \<Rightarrow> int \<Rightarrow> event set" where
  "events_of events k = {e \<in> set (ev_rows events). ev_work_order_id e = k}"

definition non_blank_technicians :: "event set \<Rightarrow> string set" where
  "non_blank_technicians es = {t \<in> ev_technician ` es. strip t \<noteq> []}"

section \<open>Sample data\<close>

definition mk_incident ::
  "int \<Rightarrow> string \<Rightarrow> string \<Rightarrow> string \<Rightarrow> string \<Rightarrow> timestamp \<Rightarrow> string list \<Rightarrow> string \<Rightarrow> incident"
  where
  "mk_incident w e p s d ts techs c =
     \<lparr>work_order_id = w, equipment_id = e, product_line = p, symptom_code = s,
      description = d, start_ts = ts, end_ts = ts, technicians = techs, comments = c,
      n_updates = 1, start_date = (fst ts, fst (snd ts), fst (snd (snd ts))),
      end_date = (fst ts, fst (snd ts), fst (snd (snd ts)))\<rparr>"

definition sample_rows :: "incident list" where
  "sample_rows =
     [mk_incident 1 ''CNC-01'' ''LINE-A'' ''SPINDLE_TIMEOUT'' ''Spindle stalls'' (2024, 7, 3, 0)
        [''Alice'', ''Bob''] ''Reset the drive'',
      mk_incident 2 ''CNC-01'' ''LINE-A'' ''BEARING_WEAR'' ''Bearing noise'' (2024, 7, 10, 0)
        [''Alice''] ''Oil leak found'',
      mk_incident 3 ''PRESS-02'' ''LINE-B'' ''SPINDLE_TIMEOUT'' ''Spindle timeout'' (2023, 7, 5, 0)
        [''Carol''] ''leak at the seal'',
      mk_incident 4 ''PRESS-02'' ''LINE-B'' ''BEARING_WEAR'' ''Worn bearing'' (2024, 3, 1, 0)
        [] [],
      mk_incident 5 ''PRESS-02'' ''LINE-B'' ''SENSOR_FAILURE'' ''Sensor dead'' (2024, 3, 9, 0)
        ['' Bob '', []] ''Replaced a sensor'']"

definition sample_frame :: frame where
  "sample_frame = \<lparr>has_technicians = True, rows = sample_rows\<rparr>"

definition sample_frame_no_technicians :: frame where
  "sample_frame_no_technicians = \<lparr>has_technicians = False, rows = sample_rows\<rparr>"

definition sample_globals :: globals where
  "sample_globals =
     \<lparr>work_orders = sample_frame,
      known_equipment = [''CNC-01'', ''PRESS-02''],
      known_product_lines = [''LINE-A'', ''LINE-B''],
      known_symptoms = [''SPINDLE_TIMEOUT'', ''BEARING_WEAR'', ''SENSOR_FAILURE''],
      default_year = 2024, USE_LLM = False, llm_available = False,
      synthesize_with_llm = (\<lambda>q a. a)\<rparr>"

definition mk_event :: "int \<Rightarrow> string \<Rightarrow> string \<Rightarrow> timestamp \<Rightarrow> timestamp \<Rightarrow> event" where
  "mk_event w tech c ts ts' =
     \<lparr>ev_work_order_id = w, ev_equipment_id = ''CNC-01'', ev_product_line = ''LINE-A'',
      ev_symptom_code = ''BEARING_WEAR'', ev_description = ''Bearing noise'',
      ev_technician = tech, ev_comment = c, ev_start_ts = ts, ev_end_ts = ts'\<rparr>"

definition sample_events :: events_frame where
  "sample_events =
     \<lparr>ev_columns = REQUIRED_COLUMNS @ [''start_ts'', ''end_ts''],
      ev_rows =
        [mk_event 2 ''Carol'' ''checked'' (2024, 7, 9, 0) (2024, 7, 9, 3600),
         mk_event 1 ''Bob'' ''greased'' (2024, 7, 3, 7200) (2024, 7, 3, 9000),
         mk_event 1 ''Alice'' ''opened'' (2024, 7, 3, 0) (2024, 7, 3, 3600),
         mk_event 1 ''Alice'' ''closed'' (2024, 7, 4, 0) (2024, 7, 4, 600)]\<rparr>"

section \<open>Filtering\<close>

lemma rows_filter_work_orders:
  "rows (filter_work_orders wo f) = filter (passes f) (rows wo)"
  by (auto simp: filter_work_orders_def select_def passes_def Let_def
           split: option.splits intro!: filter_cong)

lemma has_technicians_filter_work_orders:
  "has_technicians (filter_work_orders wo f) = has_technicians wo"
  by (simp add: filter_work_orders_def select_def Let_def split: option.splits)

lemma narrows_passes: "narrows g f \<Longrightarrow> passes g r \<Longrightarrow> passes f r"
  by (cases "f_equipment_id f"; cases "f_product_line f"; cases "f_symptom_code f")
     (auto simp: narrows_def passes_def)

text \<open>
  C6. Filter monotonicity: under a filter that keeps every populated field of a wider
  filter with the same value and constrains further fields, the work-order ids returned by
  \<open>filter_work_orders\<close> are among those returned under the wider filter. The populated
  fields combine conjunctively (\<open>rows_filter_work_orders\<close>).
\<close>

theorem filter_work_orders_monotone:
  assumes "narrows g f"
  shows "set (map work_order_id (rows (filter_work_orders wo g)))
         \<subseteq> set (map work_order_id (rows (filter_work_orders wo f)))"
  using assms by (auto simp: rows_filter_work_orders dest: narrows_passes)

theorem filter_work_orders_monotone_witness:
  "narrows (Filters0\<lparr>f_equipment_id := Some ''CNC-01'', f_symptom_code := Some ''BEARING_WEAR''\<rparr>)
           (Filters0\<lparr>f_equipment_id := Some ''CNC-01''\<rparr>) \<and>
   set (map work_order_id (rows (filter_work_orders sample_frame
          (Filters0\<lparr>f_equipment_id := Some ''CNC-01'', f_symptom_code := Some ''BEARING_WEAR''\<rparr>))))
   \<subseteq> set (map work_order_id (rows (filter_work_orders sample_frame
          (Filters0\<lparr>f_equipment_id := Some ''CNC-01''\<rparr>))))"
proof -
  have h: "narrows (Filters0\<lparr>f_equipment_id := Some ''CNC-01'', f_symptom_code := Some ''BEARING_WEAR''\<rparr>)
           (Filters0\<lparr>f_equipment_id := Some ''CNC-01''\<rparr>)"
    by (simp add: narrows_def Filters0_def)
  show ?thesis
    using h filter_work_orders_monotone [OF h, of sample_frame] by simp
qed

section \<open>Most common symptoms\<close>

lemma set_value_counts: "set (value_counts ks) = (\<lambda>k. (k, count_list ks k)) ` set ks"
  by (simp add: value_counts_def)

lemma inj_on_fst_value_counts: "inj_on fst (set (value_counts ks))"
  by (auto simp: set_value_counts inj_on_def)

lemma distinct_value_counts: "distinct (value_counts ks)"
  by (simp add: value_counts_def distinct_map inj_on_def)

lemma value_counts_hd_max:
  assumes "value_counts ks = (s, m) # rest"
  shows "s \<in> set ks \<and> m = count_list ks s \<and> (\<forall>k \<in> set ks. count_list ks k \<le> m)"
proof -
  have "sorted (map (\<lambda>(k, c). - int c) (value_counts ks))"
    unfolding value_counts_def by (rule sorted_sort_key)
  with assms have le: "\<forall>y \<in> set (value_counts ks). (case y of (k, c) \<Rightarrow> c \<le> m)"
    by (auto simp: assms)
  have "(s, m) \<in> set (value_counts ks)" by (simp add: assms)
  then have "s \<in> set ks \<and> m = count_list ks s" by (auto simp: set_value_counts)
  moreover have "\<forall>k \<in> set ks. count_list ks k \<le> m"
    using le by (auto simp: set_value_counts)
  ultimately show ?thesis by blast
qed

lemma value_counts_Nil: "value_counts ks = [] \<longleftrightarrow> ks = []"
proof -
  have "value_counts ks = [] \<longleftrightarrow> set (value_counts ks) = {}" by simp
  then show ?thesis by (simp add: set_value_counts)
qed

lemma most_common_symptoms_nonempty:
  assumes "rows (filter_work_orders wo (or_Filters f)) \<noteq> []"
  defines "ks \<equiv> map symptom_code (rows (filter_work_orders wo (or_Filters f)))"
  defines "m \<equiv> Max (count_list ks ` set ks)"
  defines "R \<equiv> most_common_symptoms wo f"
  shows "sorted (map fst R)" "distinct (map fst R)"
    "set R = {(s, m) | s. s \<in> set ks \<and> count_list ks s = m}"
proof -
  have ne: "ks \<noteq> []" using assms(1) by (simp add: ks_def)
  then obtain s c rest where vc: "value_counts ks = (s, c) # rest"
    by (cases "value_counts ks") (auto simp: value_counts_Nil)
  from value_counts_hd_max [OF vc]
  have s: "s \<in> set ks" and c: "c = count_list ks s" and le: "\<forall>k \<in> set ks. count_list ks k \<le> c"
    by blast+
  have "m = c" unfolding m_def
    by (rule Max_eqI) (use s c le in auto)
  have R: "R = sort_key fst (filter (\<lambda>(sym, cnt). cnt = m) (value_counts ks))"
    using assms(1) vc \<open>m = c\<close>
    by (simp add: R_def most_common_symptoms_def Let_def ks_def [symmetric])
  show "sorted (map fst R)" unfolding R by (rule sorted_sort_key)
  show "set R = {(s, m) | s. s \<in> set ks \<and> count_list ks s = m}"
    unfolding R by (auto simp: set_value_counts)
  have "inj_on fst (set R)"
    unfolding R using inj_on_fst_value_counts [of ks] by (auto simp: inj_on_def)
  moreover have "distinct R" unfolding R by (simp add: distinct_value_counts)
  ultimately show "distinct (map fst R)" by (simp add: distinct_map)
qed

lemma two_sorted_pairs:
  fixes A B :: "'a::linorder"
  assumes "sorted (map fst R)" "distinct (map fst R)" "set R = {(A, n), (B, n)}" "A < B"
  shows "R = [(A, n), (B, n)]"
proof -
  have "fst ` set R = {A, B}" unfolding assms(3) by simp
  then have "set (map fst R) = set [A, B]" by simp
  moreover have "sorted [A, B]" "distinct [A, B]" using assms(4) by auto
  ultimately have "map fst R = [A, B]"
    using assms(1,2) by (intro sorted_distinct_set_unique) simp_all
  then obtain x y where R: "R = [(A, x), (B, y)]"
    by (auto simp: map_eq_Cons_conv)
  have "(A, x) \<in> {(A, n), (B, n)}" "(B, y) \<in> {(A, n), (B, n)}"
    unfolding assms(3) [symmetric] R by simp_all
  with assms(4) have "x = n" "y = n" by auto
  with R show ?thesis by simp
qed

text \<open>
  C1. \<open>most_common_symptoms\<close> applies the filter first. On an empty filtered set it returns
  the empty list. Otherwise it returns exactly the symptom codes whose frequency is the
  maximum frequency, each paired with that maximum, in ascending order of the code
  (code-point order of the strings), each code once. In particular, when codes \<open>A\<close> and \<open>B\<close>
  (\<open>A\<close> before \<open>B\<close>) each occur \<open>n > 0\<close> times and every other code fewer than \<open>n\<close> times, the
  result is \<open>[(A, n), (B, n)]\<close>.
\<close>

theorem most_common_symptoms_all_tied:
  "(let df = filter_work_orders wo (or_Filters f);
        R = most_common_symptoms wo f
    in (rows df = [] \<longrightarrow> R = []) \<and>
       (rows df \<noteq> [] \<longrightarrow>
          sorted (map fst R) \<and> distinct (map fst R) \<and>
          set R = {(s, max_frequency df) | s.
                     s \<in> symptom_code ` set (rows df) \<and> frequency df s = max_frequency df}) \<and>
       (\<forall>A B n. A < B \<and> 0 < n \<and> frequency df A = n \<and> frequency df B = n \<and>
                 (\<forall>s. s \<noteq> A \<and> s \<noteq> B \<longrightarrow> frequency df s < n)
            \<longrightarrow> R = [(A, n), (B, n)]))"
proof -
  define df where "df = filter_work_orders wo (or_Filters f)"
  define R where "R = most_common_symptoms wo f"
  define ks where "ks = map symptom_code (rows df)"
  have freq: "frequency df s = count_list ks s" for s by (simp add: frequency_def ks_def)
  have maxf: "max_frequency df = Max (count_list ks ` set ks)"
    by (simp add: max_frequency_def ks_def image_image frequency_def)
  have empty: "rows df = [] \<Longrightarrow> R = []"
    by (simp add: R_def most_common_symptoms_def df_def)
  have nonempty: "sorted (map fst R) \<and> distinct (map fst R) \<and>
          set R = {(s, max_frequency df) | s.
                     s \<in> symptom_code ` set (rows df) \<and> frequency df s = max_frequency df}"
    if "rows df \<noteq> []"
    using most_common_symptoms_nonempty [of wo f] that
    unfolding df_def [symmetric] R_def [symmetric] ks_def [symmetric] maxf [symmetric]
    by (simp add: freq ks_def)
  have tie: "R = [(A, n), (B, n)]"
    if "A < B" "0 < n" "frequency df A = n" "frequency df B = n"
       "\<forall>s. s \<noteq> A \<and> s \<noteq> B \<longrightarrow> frequency df s < n" for A B n
  proof -
    have A: "A \<in> set ks" using that(2,3) count_list_0_iff [of ks A] by (auto simp: freq)
    have B: "B \<in> set ks" using that(2,4) count_list_0_iff [of ks B] by (auto simp: freq)
    have ne: "rows df \<noteq> []" using A by (auto simp: ks_def)
    have "max_frequency df = n" unfolding maxf
    proof (rule Max_eqI)
      show "finite (count_list ks ` set ks)" by simp
      show "n \<in> count_list ks ` set ks" using A that(3) by (auto simp: freq)
      fix y assume "y \<in> count_list ks ` set ks"
      then obtain s where "y = count_list ks s" by auto
      then show "y \<le> n" using that(3,4,5) by (cases "s = A \<or> s = B") (auto simp: freq less_imp_le)
    qed
    have "set R = {(A, n), (B, n)}"
    proof -
      have "set R = {(s, n) | s. s \<in> set ks \<and> count_list ks s = n}"
        using nonempty [OF ne] \<open>max_frequency df = n\<close> by (simp add: freq ks_def)
      also have "\<dots> = {(A, n), (B, n)}"
        using A B that(3,4,5) by (auto simp: freq)
      finally show ?thesis .
    qed
    with nonempty [OF ne] that(1) show ?thesis by (intro two_sorted_pairs) simp_all
  qed
  show ?thesis
    unfolding Let_def df_def [symmetric] R_def [symmetric]
  proof (intro conjI impI allI)
    show "R = []" if "rows df = []" using that by (rule empty)
    show "sorted (map fst R)" "distinct (map fst R)"
      "set R = {(s, max_frequency df) | s.
                     s \<in> symptom_code ` set (rows df) \<and> frequency df s = max_frequency df}"
      if "rows df \<noteq> []" using nonempty [OF that] by simp_all
    show "R = [(A, n), (B, n)]"
      if "A < B \<and> 0 < n \<and> frequency df A = n \<and> frequency df B = n \<and>
                 (\<forall>s. s \<noteq> A \<and> s \<noteq> B \<longrightarrow> frequency df s < n)" for A B n
      using that by (intro tie) simp_all
  qed
qed

theorem most_common_symptoms_all_tied_witness:
  "rows (filter_work_orders sample_frame (or_Filters None)) \<noteq> [] \<and>
   ''BEARING_WEAR'' < ''SPINDLE_TIMEOUT'' \<and>
   most_common_symptoms sample_frame None = [(''BEARING_WEAR'', 2), (''SPINDLE_TIMEOUT'', 2)]"
proof -
  define df where "df = filter_work_orders sample_frame (or_Filters None)"
  define A where "A = ''BEARING_WEAR''"
  define B where "B = ''SPINDLE_TIMEOUT''"
  have codes: "map symptom_code (rows df) =
      [''SPINDLE_TIMEOUT'', ''BEARING_WEAR'', ''SPINDLE_TIMEOUT'', ''BEARING_WEAR'', ''SENSOR_FAILURE'']"
    unfolding df_def by code_simp
  have ne: "rows df \<noteq> []"
  proof
    assume "rows df = []"
    then have "map symptom_code (rows df) = []" by simp
    then show False unfolding codes by simp
  qed
  have lt: "A < B" unfolding A_def B_def by code_simp
  have fA: "frequency df A = 2" unfolding frequency_def codes A_def by simp
  have fB: "frequency df B = 2" unfolding frequency_def codes B_def by simp
  have other: "\<forall>s. s \<noteq> A \<and> s \<noteq> B \<longrightarrow> frequency df s < 2"
    unfolding frequency_def codes A_def B_def by simp
  have prem: "A < B \<and> (0::nat) < 2 \<and> frequency df A = 2 \<and> frequency df B = 2 \<and>
              (\<forall>s. s \<noteq> A \<and> s \<noteq> B \<longrightarrow> frequency df s < 2)"
    by (intro conjI lt fA fB other) simp
  note tie = most_common_symptoms_all_tied [of sample_frame None, unfolded Let_def,
      THEN conjunct2, THEN conjunct2, THEN spec, THEN spec, THEN spec, THEN mp]
  have "most_common_symptoms sample_frame None = [(A, 2), (B, 2)]"
    by (rule tie) (rule prem [unfolded df_def])
  then show ?thesis
    using ne lt unfolding df_def A_def B_def by (intro conjI)
qed

section \<open>Mention counts\<close>

lemma contains_sublist: "contains s sub \<longleftrightarrow> sublist sub s"
  by (induction s) (auto simp: sublist_Cons_right)

lemma filter_work_orders_Filters0: "filter_work_orders wo Filters0 = wo"
  by (simp add: filter_work_orders_def Filters0_def)

text \<open>
  C5, as the code has it. \<open>count_mentions\<close> strips the surrounding whitespace of the keyword
  before searching: it returns the number of filtered incidents that mention the stripped
  keyword (case-insensitively, as a literal substring of description, newline, comments),
  and 0 when the stripped keyword is empty. Without a filter, a keyword whose stripped form
  is not empty gives the number of incidents of the whole table mentioning it.
\<close>

theorem count_mentions_stripped:
  "count_mentions wo keyword f =
     (if strip keyword = [] then 0
      else length (filter (mentions (strip keyword))
                     (rows (filter_work_orders wo (or_Filters f))))) \<and>
   (strip keyword \<noteq> [] \<longrightarrow>
      count_mentions wo keyword None =
        length (filter (mentions (strip keyword)) (rows wo)))"
proof -
  have m: "mentions kw = (\<lambda>r. contains (lower (description r @ newline @ comments r)) (lower kw))"
    for kw by (rule ext) (simp add: mentions_def contains_sublist)
  have l: "lower s = [] \<longleftrightarrow> s = []" for s by (simp add: lower_def)
  have eq: "count_mentions wo keyword g =
     (if strip keyword = [] then 0
      else length (filter (mentions (strip keyword))
                     (rows (filter_work_orders wo (or_Filters g)))))" for g
    by (simp add: count_mentions_def Let_def m l length_filter_map comp_def)
  show ?thesis
    using eq [of f] eq [of None] by (simp add: filter_work_orders_Filters0)
qed

theorem count_mentions_stripped_witness:
  "strip ''Leak '' \<noteq> [] \<and> count_mentions sample_frame ''Leak '' None = 2 \<and>
   length (filter (mentions (strip ''Leak '')) (rows sample_frame)) = 2"
proof -
  have h: "strip ''Leak '' \<noteq> []" by code_simp
  have c: "count_mentions sample_frame ''Leak '' None = 2" by code_simp
  from count_mentions_stripped [of sample_frame "''Leak ''" None] h c
  show ?thesis by simp
qed

text \<open>
  The claim as worded fails on a keyword with surrounding whitespace: the keyword
  \<open>'' leak''\<close> occurs in one incident of the sample table, and the code, searching for
  \<open>''leak''\<close>, counts two.
\<close>

theorem count_mentions_counterexample:
  "count_mentions sample_frame '' leak'' None = 2 \<and>
   mention_count_as_specified sample_frame '' leak'' None = 1"
proof -
  have "count_mentions sample_frame '' leak'' None = 2" by code_simp
  moreover have "mention_count_as_specified sample_frame '' leak'' None = 1"
    unfolding mention_count_as_specified_def mentions_def contains_sublist [symmetric]
    by code_simp
  ultimately show ?thesis by simp
qed

section \<open>Technicians\<close>

lemma set_dropna_explode:
  "set (dropna (explode rs)) = {(w, t) | w ts t. (w, ts) \<in> set rs \<and> t \<in> set ts}"
proof (induction rs)
  case Nil
  then show ?case by (simp add: dropna_def explode_def)
next
  case (Cons r rs)
  obtain w ts where r: "r = (w, ts)" by (cases r)
  have step: "dropna (explode (r # rs)) = map (\<lambda>t. (w, t)) ts @ dropna (explode rs)"
    unfolding r by (simp add: dropna_def explode_def comp_def map_concat)
  show ?case unfolding step using Cons.IH by (auto simp: r)
qed

lemma count_key_le:
  fixes a b :: "'a::linorder"
  shows "(- int c, a) \<le> (- int d, b) \<longleftrightarrow> d < c \<or> (c = d \<and> a \<le> b)"
  by auto

lemma sorted_sort_count_desc: "sorted_wrt ranks_before (sort_count_desc xs)"
proof -
  have "sorted (map (\<lambda>(k, c). (- int c, k)) (sort_count_desc xs))"
    unfolding sort_count_desc_def by (rule sorted_sort_key)
  then have "sorted_wrt (\<lambda>x y. (case x of (k, c) \<Rightarrow> (- int c, k)) \<le> (case y of (k, c) \<Rightarrow> (- int c, k)))
               (sort_count_desc xs)"
    by (simp add: sorted_map)
  then show ?thesis
  proof (rule sorted_wrt_mono_rel [rotated])
    fix x y :: "string \<times> nat"
    assume "(case x of (k, c) \<Rightarrow> (- int c, k)) \<le> (case y of (k, c) \<Rightarrow> (- int c, k))"
    then show "ranks_before x y"
      by (cases x; cases y) (simp add: ranks_before_def count_key_le del: less_eq_prod_simp)
  qed
qed

lemma set_sort_count_desc: "set (sort_count_desc xs) = set xs"
  by (simp add: sort_count_desc_def)

lemma distinct_fst_sort_count_desc:
  "distinct (map fst (sort_count_desc xs)) = distinct (map fst xs)"
  by (simp add: sort_count_desc_def distinct_map)

lemma map_fst_groupby_nunique: "map fst (groupby_nunique rs) = sort (remdups (map snd rs))"
  by (simp add: groupby_nunique_def comp_def)

lemma set_groupby_nunique:
  "set (groupby_nunique rs) = (\<lambda>t. (t, card (fst ` {r \<in> set rs. snd r = t}))) ` snd ` set rs"
proof -
  have "nunique (map fst (filter (\<lambda>r. snd r = t) rs)) = card (fst ` {r \<in> set rs. snd r = t})" for t
    by (simp add: nunique_def card_set [symmetric])
  then show ?thesis by (simp add: groupby_nunique_def)
qed

lemma set_cleaned:
  "set (filter (\<lambda>(w, t). t \<noteq> []) (map (\<lambda>(w, t). (w, strip t))
          (dropna (explode (map (\<lambda>r. (work_order_id r, technicians r)) F))))) =
   {(work_order_id r, strip t) | r t. r \<in> set F \<and> t \<in> set (technicians r) \<and> strip t \<noteq> []}"
  (is "?L = ?R")
proof
  show "?L \<subseteq> ?R" by (auto simp: set_dropna_explode)
  show "?R \<subseteq> ?L" by (force simp: set_dropna_explode)
qed

lemma head_nonneg: "0 \<le> n \<Longrightarrow> head n xs = take (nat n) xs"
  by (simp add: head_def)

text \<open>
  C4. On a table with the technicians column, for every filter and every \<open>n\<close>,
  \<open>top_technicians\<close> returns \<open>head n\<close> of a ranking that has one entry per non-blank
  (stripped) technician name of the filtered incidents, paired with the number of distinct
  work-order ids of the incidents listing that technician, ordered by count descending and
  then name ascending; for \<open>n \<ge> 0\<close> these are the first \<open>n\<close> entries of the ranking.
\<close>

theorem top_technicians_ranking:
  assumes "has_technicians wo"
  shows "\<exists>ranked.
           top_technicians wo n f = Inr (head n ranked) \<and>
           (0 \<le> n \<longrightarrow> head n ranked = take (nat n) ranked) \<and>
           set ranked =
             (\<lambda>t. (t, distinct_orders (rows (filter_work_orders wo (or_Filters f))) t)) `
               technician_names (rows (filter_work_orders wo (or_Filters f))) \<and>
           distinct (map fst ranked) \<and> sorted_wrt ranks_before ranked"
proof -
  define F where "F = rows (filter_work_orders wo (or_Filters f))"
  define cleaned where "cleaned = filter (\<lambda>(w, t). t \<noteq> []) (map (\<lambda>(w, t). (w, strip t))
          (dropna (explode (map (\<lambda>r. (work_order_id r, technicians r)) F))))"
  define ranked where "ranked = sort_count_desc (groupby_nunique cleaned)"
  have cl: "set cleaned =
     {(work_order_id r, strip t) | r t. r \<in> set F \<and> t \<in> set (technicians r) \<and> strip t \<noteq> []}"
    unfolding cleaned_def by (rule set_cleaned)
  have names: "snd ` set cleaned = technician_names F"
    unfolding cl technician_names_def by force
  have cnt: "card (fst ` {r \<in> set cleaned. snd r = t}) = distinct_orders F t"
    if "t \<in> technician_names F" for t
  proof -
    have "t \<noteq> []" using that by (auto simp: technician_names_def)
    then have "fst ` {r \<in> set cleaned. snd r = t} =
               work_order_id ` {r \<in> set F. t \<in> strip ` set (technicians r)}"
      unfolding cl by force
    then show ?thesis by (simp add: distinct_orders_def)
  qed
  have res: "top_technicians wo n f = Inr (head n ranked)"
  proof (cases "F = []")
    case True
    then have "cleaned = []" by (simp add: cleaned_def explode_def dropna_def)
    then have "ranked = []" by (simp add: ranked_def groupby_nunique_def sort_count_desc_def)
    with True show ?thesis
      by (simp add: top_technicians_def F_def [symmetric] head_def)
  next
    case False
    then show ?thesis
      using assms
      by (simp add: top_technicians_def F_def [symmetric] Let_def
            has_technicians_filter_work_orders ranked_def cleaned_def)
  qed
  have set_r: "set ranked = (\<lambda>t. (t, distinct_orders F t)) ` technician_names F"
    unfolding ranked_def set_sort_count_desc set_groupby_nunique names
    using cnt by (auto simp: image_iff)
  have dist: "distinct (map fst ranked)"
    unfolding ranked_def distinct_fst_sort_count_desc map_fst_groupby_nunique by simp
  have srt: "sorted_wrt ranks_before ranked"
    unfolding ranked_def by (rule sorted_sort_count_desc)
  show ?thesis
    unfolding F_def [symmetric]
    using res set_r dist srt head_nonneg [of n ranked] by blast
qed

theorem top_technicians_ranking_witness:
  "has_technicians sample_frame \<and> (0::int) \<le> 2 \<and>
   top_technicians sample_frame 2 None = Inr [(''Alice'', 2), (''Bob'', 2)] \<and>
   (\<exists>ranked.
      top_technicians sample_frame 2 None = Inr (take (nat 2) ranked) \<and>
      distinct (map fst ranked) \<and> sorted_wrt ranks_before ranked)"
proof -
  have h: "has_technicians sample_frame" by (simp add: sample_frame_def)
  have v: "top_technicians sample_frame 2 None = Inr [(''Alice'', 2), (''Bob'', 2)]"
    by code_simp
  from top_technicians_ranking [OF h, of 2 None]
  obtain ranked where
    "top_technicians sample_frame 2 None = Inr (head 2 ranked)"
    "(0::int) \<le> 2 \<longrightarrow> head 2 ranked = take (nat 2) ranked"
    "distinct (map fst ranked)" "sorted_wrt ranks_before ranked"
    by blast
  then have "top_technicians sample_frame 2 None = Inr (take (nat 2) ranked) \<and>
      distinct (map fst ranked) \<and> sorted_wrt ranks_before ranked"
    by simp
  then have "\<exists>ranked. top_technicians sample_frame 2 None = Inr (take (nat 2) ranked) \<and>
      distinct (map fst ranked) \<and> sorted_wrt ranks_before ranked" ..
  with h v show ?thesis by simp
qed

text \<open>
  C9, as the code has it. On a table without the technicians column, \<open>top_technicians\<close> and
  \<open>count_distinct_technicians\<close> raise the data-shape error exactly when the filtered set is
  not empty; on an empty filtered set they return the empty ranking and 0, because the
  emptiness test comes before the column test.
\<close>

theorem technicians_missing_column:
  assumes "\<not> has_technicians wo"
  shows "top_technicians wo n f =
           (if rows (filter_work_orders wo (or_Filters f)) = [] then Inr []
            else Inl ValueError) \<and>
         count_distinct_technicians wo f =
           (if rows (filter_work_orders wo (or_Filters f)) = [] then Inr 0
            else Inl ValueError)"
  using assms
  by (simp add: top_technicians_def count_distinct_technicians_def Let_def
        has_technicians_filter_work_orders)

theorem technicians_missing_column_witness:
  "\<not> has_technicians sample_frame_no_technicians \<and>
   rows (filter_work_orders sample_frame_no_technicians (or_Filters None)) \<noteq> [] \<and>
   top_technicians sample_frame_no_technicians 5 None = Inl ValueError \<and>
   count_distinct_technicians sample_frame_no_technicians None = Inl ValueError"
proof -
  have h: "\<not> has_technicians sample_frame_no_technicians"
    by (simp add: sample_frame_no_technicians_def)
  have ne: "rows (filter_work_orders sample_frame_no_technicians (or_Filters None)) \<noteq> []"
    by code_simp
  from technicians_missing_column [OF h, of 5 None] h ne show ?thesis by simp
qed

text \<open>
  The claim as worded fails under a filter that selects no row: the table lacks the
  technicians column and both functions return without an error.
\<close>

theorem technicians_missing_column_counterexample:
  "\<not> has_technicians sample_frame_no_technicians \<and>
   top_technicians sample_frame_no_technicians 5
     (Some (Filters0\<lparr>f_equipment_id := Some ''LATHE-07''\<rparr>)) = Inr [] \<and>
   count_distinct_technicians sample_frame_no_technicians
     (Some (Filters0\<lparr>f_equipment_id := Some ''LATHE-07''\<rparr>)) = Inr 0"
  by code_simp

section \<open>Intent classification\<close>

text \<open>
  C2, as the code has it. For every question text, \<open>intent\<close> lower-cases the text and
  evaluates the ordered cascade, first match winning: the eight substring rules in the
  order of \<open>substring_rules\<close>, then \<open>what_about\<close> when the text starts with \<open>what about\<close>
  once its surrounding whitespace is stripped, otherwise \<open>unknown\<close>.
\<close>

theorem intent_is_cascade: "intent q = intent_cascade q"
  by (simp add: intent_def intent_cascade_def substring_rules_def any_of_def Let_def)

theorem intent_is_cascade_witness:
  "intent ''   What about July?'' = intent_cascade ''   What about July?'' \<and>
   intent_cascade ''   What about July?'' = ''what_about''"
proof -
  have "intent_cascade ''   What about July?'' = ''what_about''" by code_simp
  with intent_is_cascade [of "''   What about July?''"] show ?thesis by simp
qed

text \<open>
  The claim as worded fails on a text with leading whitespace: it does not start with
  \<open>what about\<close>, and the code classifies it as \<open>what_about\<close>.
\<close>

theorem intent_counterexample:
  "intent '' what about july'' = ''what_about'' \<and>
   intent_as_specified '' what about july'' = ''unknown''"
  by code_simp

section \<open>Filter extraction\<close>

text \<open>
  The date range that \<open>extract_filters\<close> resolves: a half-year phrase first, then a month
  token, otherwise no bounds; the year is the first token \<open>20dd\<close> or the default year. The
  one failure is a month token that \<open>MONTH_MAP\<close> does not hold.
\<close>

lemma extract_filters_date_range:
  "extract_filters q ke kp ks dy =
     (let ql = lower q;
          y = year_from_query ql dy;
          flt = (\<lambda>lo hi. \<lparr>f_equipment_id = extract_equipment_id q ke,
                           f_product_line = extract_product_line q kp,
                           f_symptom_code = extract_symptom_code q ks,
                           f_start_ts_min = lo, f_start_ts_max = hi\<rparr>)
      in if re_search first_half_re ql \<noteq> None
         then Inr (flt (Some (y, 1, 1, 0)) (Some (y, 7, 1, 0)))
         else if re_search second_half_re ql \<noteq> None
         then Inr (flt (Some (y, 7, 1, 0)) (Some (y + 1, 1, 1, 0)))
         else case re_search month_re ql of
                None \<Rightarrow> Inr (flt None None)
              | Some g \<Rightarrow>
                  (case map_of MONTH_MAP g of
                     None \<Rightarrow> Inl KeyError
                   | Some mon \<Rightarrow>
                       Inr (flt (Some (y, mon, 1, 0))
                              (Some (if mon = 12 then (y + 1, 1, 1, 0)
                                     else (y, mon + 1, 1, 0))))))"
  by (simp add: extract_filters_def half_year_range_from_query_def month_range_from_query_def
        month_begin_after_def Let_def split: option.splits)

text \<open>
  C3. The month pattern accepts the token \<open>sepember\<close> (\<open>sep\<close>, no \<open>t\<close>, then \<open>ember\<close>), which is
  not a key of \<open>MONTH_MAP\<close>: on a question with that token and no half-year phrase,
  \<open>extract_filters\<close> raises \<open>KeyError\<close> instead of resolving a date range or leaving both
  bounds unset.
\<close>

theorem extract_filters_sepember:
  "extract_filters ''How many incidents in sepember?'' [] [] [] 2024 = Inl KeyError"
  by code_simp

section \<open>Answering a question\<close>

lemma intent_Nil: "intent [] = ''unknown''"
  by code_simp

lemma lower_char_idem: "lower_char (lower_char c) = lower_char c"
  by (simp add: lower_char_def Let_def)

lemma lower_idem: "lower (lower s) = lower s"
  by (simp add: lower_def lower_char_idem)

lemma intent_lower: "intent (lower q) = intent q"
  by (simp add: intent_def lower_idem)

lemma intent_exit: "lower u = ''exit'' \<or> lower u = ''quit'' \<Longrightarrow> intent u = ''unknown''"
proof -
  assume a: "lower u = ''exit'' \<or> lower u = ''quit''"
  have "intent ''exit'' = ''unknown''" "intent ''quit'' = ''unknown''" by code_simp+
  with a intent_lower [of u] show ?thesis by auto
qed

lemma is_digit_char_of: "d < 10 \<Longrightarrow> is_digit (char_of (48 + d :: nat))"
  by (simp add: is_digit_def Let_def)

lemma str_nat_digits: "str_nat n \<noteq> [] \<and> list_all is_digit (str_nat n)"
proof (induction n rule: str_nat.induct)
  case (1 n)
  show ?case
  proof (cases "n < 10")
    case True
    then have "str_nat n = [char_of (48 + n)]" by (subst str_nat.simps) simp
    with True show ?thesis by (simp add: is_digit_char_of)
  next
    case False
    then have "str_nat n = str_nat (n div 10) @ [char_of (48 + n mod 10)]"
      by (subst str_nat.simps) simp
    with 1 [OF False] show ?thesis by (simp add: is_digit_char_of)
  qed
qed

lemma strip_no_space: "\<forall>c \<in> set s. \<not> is_space c \<Longrightarrow> strip s = s"
proof -
  assume a: "\<forall>c \<in> set s. \<not> is_space c"
  have d: "dropWhile is_space xs = xs" if "\<forall>c \<in> set xs. \<not> is_space c" for xs
    using that by (cases xs) auto
  show ?thesis unfolding strip_def using a by (simp add: d)
qed

lemma isdigit_str_nat: "isdigit (strip (str_nat n))"
proof -
  have "\<forall>c \<in> set (str_nat n). \<not> is_space c"
    using str_nat_digits [of n] by (auto simp: list_all_iff is_digit_def is_space_def Let_def)
  then have "strip (str_nat n) = str_nat n" by (rule strip_no_space)
  moreover have "list_all is_str_digit (str_nat n)"
    using str_nat_digits [of n] by (auto simp: list_all_iff is_digit_def is_str_digit_def Let_def)
  ultimately show ?thesis using str_nat_digits [of n] by (simp add: isdigit_def)
qed

lemma answer_question_no_distinct_equipment_handler:
  assumes "intent (strip q) = ''count_distinct_equipment''"
      and "extract_filters (strip q) (known_equipment G) (known_product_lines G)
             (known_symptoms G) (default_year G) = Inr f"
  shows "answer_question G q = Inr []"
    and "cli_turn G q =
           Inr (Print (str_nat (count_distinct_equipment (work_orders G) (Some f))))"
proof -
  have ne: "strip q \<noteq> []" using assms(1) intent_Nil by auto
  show "answer_question G q = Inr []"
    by (simp add: answer_question_def Let_def ne assms)
  have nq: "\<not> (lower (strip q) = ''exit'' \<or> lower (strip q) = ''quit'')"
    using intent_exit [of "strip q"] assms(1) by auto
  note digits = isdigit_str_nat
  have cnt: "count_distinct_equipment (work_orders G) (Some f) =
      nunique (map equipment_id (rows (filter_work_orders (work_orders G) f)))"
    by (simp add: count_distinct_equipment_def nunique_def Let_def)
  show "cli_turn G q =
           Inr (Print (str_nat (count_distinct_equipment (work_orders G) (Some f))))"
    unfolding cnt
    using nq
    by (simp add: cli_turn_def Let_def ne assms filter_work_orders_def maybe_llm_def digits)
qed

text \<open>
  C8. On a question whose intent is \<open>count_distinct_equipment\<close>, \<open>answer_question\<close> has no
  handler and returns the empty string, where the loop of app.py prints the number of
  distinct equipment ids of the filtered incidents.
\<close>

theorem answer_question_distinct_equipment:
  "intent ''How many distinct equipment had incidents?'' = ''count_distinct_equipment'' \<and>
   answer_question sample_globals ''How many distinct equipment had incidents?'' = Inr [] \<and>
   cli_turn sample_globals ''How many distinct equipment had incidents?'' = Inr (Print ''2'')"
  by code_simp

lemma maybe_llm_Nil: "maybe_llm G u [] = []"
  by (simp add: maybe_llm_def)

lemma maybe_llm_off: "\<not> (USE_LLM G \<and> llm_available G) \<Longrightarrow> maybe_llm G u a = a"
  by (auto simp: maybe_llm_def)

lemma filter_work_orders_None: "filter_work_orders wo (or_Filters None) = wo"
  by (simp add: filter_work_orders_def Filters0_def)

lemma top_equipment_Filters0: "top_equipment wo n (Some Filters0) = top_equipment wo n None"
  by (simp add: top_equipment_def)

lemma top_technicians_Filters0: "top_technicians wo n (Some Filters0) = top_technicians wo n None"
  by (simp add: top_technicians_def)

text \<open>
  Where \<open>extract_filters\<close> returns a filter, the answer of the two top-ranking intents does
  not depend on it: it is the deterministic answer computed from the whole table with no
  filter, passed through the optional paraphrase step, and the deterministic answer itself
  when the paraphrase is off.
\<close>

lemma answer_question_top_global:
  assumes it: "intent (strip q) = ''top_equipment'' \<or> intent (strip q) = ''top_technician''"
      and ex: "extract_filters (strip q) (known_equipment G) (known_product_lines G)
                 (known_symptoms G) (default_year G) = Inr f"
  shows "answer_question G q =
           map_sum id (maybe_llm G (strip q))
             (global_top_answer (work_orders G) (intent (strip q))) \<and>
         filter_work_orders (work_orders G) (or_Filters None) = work_orders G \<and>
         (\<not> (USE_LLM G \<and> llm_available G) \<longrightarrow>
            answer_question G q = global_top_answer (work_orders G) (intent (strip q)))"
proof -
  have ne: "strip q \<noteq> []" using it intent_Nil by auto
  have main: "answer_question G q =
           map_sum id (maybe_llm G (strip q))
             (global_top_answer (work_orders G) (intent (strip q)))"
    using it
  proof
    assume e: "intent (strip q) = ''top_equipment''"
    show ?thesis
      by (simp add: answer_question_def Let_def ne ex e global_top_answer_def
            top_entry_answer_def top_equipment_Filters0 maybe_llm_Nil split: list.splits)
  next
    assume t: "intent (strip q) = ''top_technician''"
    show ?thesis
      by (simp add: answer_question_def Let_def ne ex t global_top_answer_def
            top_entry_answer_def top_technicians_Filters0 maybe_llm_Nil
            split: list.splits sum.splits)
  qed
  have off: "answer_question G q = global_top_answer (work_orders G) (intent (strip q))"
    if "\<not> (USE_LLM G \<and> llm_available G)"
  proof -
    have "maybe_llm G (strip q) = id" using maybe_llm_off [OF that] by (intro ext) simp
    then show ?thesis unfolding main by (simp add: sum.map_id)
  qed
  show ?thesis using main off filter_work_orders_None by blast
qed

text \<open>
  On the sample table the question restricted to July is answered from the whole table: the
  July incidents alone would rank \<open>CNC-01\<close> first.
\<close>

lemma answer_question_top_global_july:
  "top_equipment (work_orders sample_globals) 1
     (Some (Filters0\<lparr>f_start_ts_min := Some (2024, 7, 1, 0), f_start_ts_max := Some (2024, 8, 1, 0)\<rparr>))
     = [(''CNC-01'', 2)] \<and>
   answer_question sample_globals ''Which equipment has the most incidents in July?'' =
     Inr ''PRESS-02 with 3 work orders''"
proof -
  define q where "q = ''Which equipment has the most incidents in July?''"
  define f where "f = Filters0\<lparr>f_start_ts_min := Some (2024, 7, 1, 0), f_start_ts_max := Some (2024, 8, 1, 0)\<rparr>"
  have i: "intent (strip q) = ''top_equipment''" unfolding q_def by code_simp
  then have it: "intent (strip q) = ''top_equipment'' \<or> intent (strip q) = ''top_technician''" ..
  have ex: "extract_filters (strip q) (known_equipment sample_globals)
      (known_product_lines sample_globals) (known_symptoms sample_globals)
      (default_year sample_globals) = Inr f"
    unfolding q_def f_def by code_simp
  have off: "\<not> (USE_LLM sample_globals \<and> llm_available sample_globals)"
    by (simp add: sample_globals_def)
  have filtered: "top_equipment (work_orders sample_globals) 1 (Some f) = [(''CNC-01'', 2)]"
    unfolding f_def by code_simp
  have g: "global_top_answer (work_orders sample_globals) ''top_equipment'' =
     Inr ''PRESS-02 with 3 work orders''" by code_simp
  from answer_question_top_global [OF it ex] off
  have "answer_question sample_globals q =
          global_top_answer (work_orders sample_globals) (intent (strip q))" by blast
  then have a: "answer_question sample_globals q = Inr ''PRESS-02 with 3 work orders''"
    unfolding i g .
  show ?thesis
    using filtered a unfolding q_def f_def by (intro conjI)
qed

text \<open>
  C7. A question classified as \<open>top_equipment\<close> must get the answer \<open>id with n work orders\<close>
  of the whole table whatever date constraint its text carries. With the date word
  \<open>sepember\<close> the month pattern matches a token that \<open>MONTH_MAP\<close> lacks, \<open>extract_filters\<close>
  raises \<open>KeyError\<close> before the handler runs, and no answer is returned; the same question
  without the date word gets the answer of the whole table.
\<close>

theorem answer_question_top_sepember:
  "intent (strip ''Which equipment has the most incidents in sepember?'') = ''top_equipment'' \<and>
   answer_question sample_globals ''Which equipment has the most incidents in sepember?'' =
     Inl KeyError \<and>
   intent (strip ''Which equipment has the most incidents?'') = ''top_equipment'' \<and>
   answer_question sample_globals ''Which equipment has the most incidents?'' =
     Inr ''PRESS-02 with 3 work orders''"
  by code_simp

section \<open>Building the work-order table\<close>

lemma validate_columns_valid: "valid_events events \<Longrightarrow> validate_columns events = Inr ()"
  by (auto simp: valid_events_def validate_columns_def filter_empty_conv)

lemma fold_min_Min: "fold min xs (x::'a::linorder) = Min (set (x # xs))"
  by (rule Min.set_eq_fold [symmetric])

lemma fold_max_Max: "fold max xs (x::'a::linorder) = Max (set (x # xs))"
  by (rule Max.set_eq_fold [symmetric])

text \<open>The row that the aggregation yields for a key, when the key has events.\<close>

lemma group_rows_ids:
  assumes "set ks \<subseteq> ev_work_order_id ` set ev"
  shows "map work_order_id
           (concat (map (\<lambda>k. case filter (\<lambda>e. ev_work_order_id e = k) ev of
                                 [] \<Rightarrow> [] | e # es \<Rightarrow> [agg_group k e es]) ks)) = ks"
  using assms
proof (induction ks)
  case Nil
  then show ?case by simp
next
  case (Cons k ks)
  then have "k \<in> ev_work_order_id ` set ev" by simp
  then have "filter (\<lambda>e. ev_work_order_id e = k) ev \<noteq> []"
    by (auto simp: filter_empty_conv)
  then obtain e es where "filter (\<lambda>e. ev_work_order_id e = k) ev = e # es"
    by (cases "filter (\<lambda>e. ev_work_order_id e = k) ev") auto
  with Cons show ?case by (simp add: agg_group_def Let_def)
qed

lemma group_rows_member:
  assumes "w \<in> set (concat (map (\<lambda>k. case filter (\<lambda>e. ev_work_order_id e = k) ev of
                                 [] \<Rightarrow> [] | e # es \<Rightarrow> [agg_group k e es]) ks))"
  shows "\<exists>k e es. k \<in> set ks \<and> filter (\<lambda>e. ev_work_order_id e = k) ev = e # es \<and>
                   w = agg_group k e es"
proof -
  from assms obtain k where k: "k \<in> set ks"
    and w: "w \<in> set (case filter (\<lambda>e. ev_work_order_id e = k) ev of
                       [] \<Rightarrow> [] | e # es \<Rightarrow> [agg_group k e es])"
    by auto
  from w obtain e es where "filter (\<lambda>e. ev_work_order_id e = k) ev = e # es"
    and "w = agg_group k e es"
    by (cases "filter (\<lambda>e. ev_work_order_id e = k) ev") auto
  with k show ?thesis by blast
qed

lemma agg_group_fields:
  assumes "filter (\<lambda>e. ev_work_order_id e = k) ev = e # es"
  defines "E \<equiv> {x \<in> set ev. ev_work_order_id x = k}"
  shows "work_order_id (agg_group k e es) = k"
    and "E \<noteq> {}"
    and "start_ts (agg_group k e es) = Min (ev_start_ts ` E)"
    and "end_ts (agg_group k e es) = Max (ev_end_ts ` E)"
    and "technicians (agg_group k e es) = sorted_list_of_set (non_blank_technicians E)"
proof -
  have E: "E = set (e # es)"
    unfolding E_def assms(1) [symmetric] by auto
  show "work_order_id (agg_group k e es) = k" by (simp add: agg_group_def Let_def)
  show "E \<noteq> {}" unfolding E by simp
  show "start_ts (agg_group k e es) = Min (ev_start_ts ` E)"
    unfolding E by (simp add: agg_group_def Let_def fold_min_Min del: set_simps) simp
  show "end_ts (agg_group k e es) = Max (ev_end_ts ` E)"
    unfolding E by (simp add: agg_group_def Let_def fold_max_Max del: set_simps) simp
  have "non_blank_technicians E =
          set (filter (\<lambda>x. strip x \<noteq> []) (map ev_technician (e # es)))"
    unfolding E non_blank_technicians_def by auto
  moreover have "technicians (agg_group k e es) =
      sort (remdups (filter (\<lambda>x. strip x \<noteq> []) (map ev_technician (e # es))))"
    by (simp add: agg_group_def Let_def)
  ultimately show "technicians (agg_group k e es) = sorted_list_of_set (non_blank_technicians E)"
    by (simp only: sorted_list_of_set_sort_remdups)
qed

text \<open>
  C10. For every valid event table, \<open>build_work_orders\<close> returns a table with the technicians
  column and exactly one row per distinct work-order id of the events: the ids of the rows
  are distinct, they are exactly the ids occurring in the events (so every row has at least
  one event), and the number of rows is the number of distinct ids. In each row \<open>start_ts\<close>
  is the minimum start and \<open>end_ts\<close> the maximum end over the row's events, and
  \<open>technicians\<close> is the sorted list of the distinct technician names of its events that are
  not blank.
\<close>

theorem build_work_orders_one_row_per_id:
  assumes "valid_events events"
  shows "\<exists>wo. build_work_orders events = Inr wo \<and>
           has_technicians wo \<and>
           distinct (map work_order_id (rows wo)) \<and>
           set (map work_order_id (rows wo)) = ev_work_order_id ` set (ev_rows events) \<and>
           length (rows wo) = card (ev_work_order_id ` set (ev_rows events)) \<and>
           (\<forall>w \<in> set (rows wo).
              events_of events (work_order_id w) \<noteq> {} \<and>
              start_ts w = Min (ev_start_ts ` events_of events (work_order_id w)) \<and>
              end_ts w = Max (ev_end_ts ` events_of events (work_order_id w)) \<and>
              technicians w =
                sorted_list_of_set (non_blank_technicians (events_of events (work_order_id w))))"
proof -
  define ev where "ev = sort_key (\<lambda>e. (ev_work_order_id e, ev_start_ts e, ev_end_ts e))
                       (ev_rows events)"
  define keys where "keys = sort (remdups (map ev_work_order_id ev))"
  define agg where "agg = concat (map (\<lambda>k. case filter (\<lambda>e. ev_work_order_id e = k) ev of
                                          [] \<Rightarrow> []
                                        | e # es \<Rightarrow> [agg_group k e es]) keys)"
  define wo where "wo = \<lparr>has_technicians = True, rows = agg\<rparr>"
  have cols: "''start_ts'' \<in> set (ev_columns events)" "''end_ts'' \<in> set (ev_columns events)"
    using assms by (auto simp: valid_events_def)
  have res: "build_work_orders events = Inr wo"
    by (simp add: build_work_orders_def validate_columns_valid [OF assms] cols Let_def
          ev_def [symmetric] keys_def [symmetric] agg_def [symmetric] wo_def)
  have set_ev: "set ev = set (ev_rows events)" by (simp add: ev_def)
  have set_keys: "set keys = ev_work_order_id ` set ev" by (simp add: keys_def)
  have dist_keys: "distinct keys" by (simp add: keys_def)
  have ids: "map work_order_id agg = keys"
    unfolding agg_def by (rule group_rows_ids) (simp add: set_keys)
  have len: "length agg = card (ev_work_order_id ` set (ev_rows events))"
  proof -
    have "length agg = length (map work_order_id agg)" by simp
    also have "\<dots> = length keys" by (simp only: ids)
    also have "\<dots> = card (set keys)" using dist_keys by (simp add: distinct_card)
    finally show ?thesis by (simp add: set_keys set_ev)
  qed
  have rows_ok: "events_of events (work_order_id w) \<noteq> {} \<and>
              start_ts w = Min (ev_start_ts ` events_of events (work_order_id w)) \<and>
              end_ts w = Max (ev_end_ts ` events_of events (work_order_id w)) \<and>
              technicians w =
                sorted_list_of_set (non_blank_technicians (events_of events (work_order_id w)))"
    if "w \<in> set agg" for w
  proof -
    from group_rows_member [OF that [unfolded agg_def]]
    obtain k e es where g: "filter (\<lambda>e. ev_work_order_id e = k) ev = e # es"
      and w: "w = agg_group k e es" by blast
    have E: "events_of events k = {x \<in> set ev. ev_work_order_id x = k}"
      by (simp add: events_of_def set_ev)
    have k: "work_order_id w = k" unfolding w by (rule agg_group_fields(1) [OF g])
    note f = agg_group_fields [OF g]
    show ?thesis
      unfolding k E unfolding w
      by (intro conjI f(2) f(3) f(4) f(5))
  qed
  have ht: "has_technicians wo" and rw: "rows wo = agg" by (simp_all add: wo_def)
  have d: "distinct (map work_order_id agg)" by (simp only: ids dist_keys)
  have st: "set (map work_order_id agg) = ev_work_order_id ` set (ev_rows events)"
    by (simp only: ids set_keys set_ev)
  show ?thesis
  proof (intro exI [of _ wo] conjI ballI)
    show "build_work_orders events = Inr wo" by (rule res)
    show "has_technicians wo" by (rule ht)
    show "distinct (map work_order_id (rows wo))" unfolding rw by (rule d)
    show "set (map work_order_id (rows wo)) = ev_work_order_id ` set (ev_rows events)"
      unfolding rw by (rule st)
    show "length (rows wo) = card (ev_work_order_id ` set (ev_rows events))"
      unfolding rw by (rule len)
  next
    fix w assume "w \<in> set (rows wo)"
    then have w: "w \<in> set agg" unfolding rw .
    show "events_of events (work_order_id w) \<noteq> {}"
      "start_ts w = Min (ev_start_ts ` events_of events (work_order_id w))"
      "end_ts w = Max (ev_end_ts ` events_of events (work_order_id w))"
      "technicians w =
         sorted_list_of_set (non_blank_technicians (events_of events (work_order_id w)))"
      using rows_ok [OF w] by blast+
  qed
qed

theorem build_work_orders_one_row_per_id_witness:
  "valid_events sample_events \<and>
   (\<exists>wo. build_work_orders sample_events = Inr wo \<and>
      map work_order_id (rows wo) = [1, 2] \<and>
      map start_ts (rows wo) = [(2024, 7, 3, 0), (2024, 7, 9, 0)] \<and>
      map end_ts (rows wo) = [(2024, 7, 4, 600), (2024, 7, 9, 3600)] \<and>
      map technicians (rows wo) = [[''Alice'', ''Bob''], [''Carol'']] \<and>
      length (rows wo) = card (ev_work_order_id ` set (ev_rows sample_events)))"
proof -
  have v: "valid_events sample_events"
    by (simp add: valid_events_def sample_events_def REQUIRED_COLUMNS_def)
  from build_work_orders_one_row_per_id [OF v]
  obtain wo where c: "build_work_orders sample_events = Inr wo \<and>
           has_technicians wo \<and>
           distinct (map work_order_id (rows wo)) \<and>
           set (map work_order_id (rows wo)) = ev_work_order_id ` set (ev_rows sample_events) \<and>
           length (rows wo) = card (ev_work_order_id ` set (ev_rows sample_events)) \<and>
           (\<forall>w \<in> set (rows wo).
              events_of sample_events (work_order_id w) \<noteq> {} \<and>
              start_ts w = Min (ev_start_ts ` events_of sample_events (work_order_id w)) \<and>
              end_ts w = Max (ev_end_ts ` events_of sample_events (work_order_id w)) \<and>
              technicians w =
                sorted_list_of_set
                  (non_blank_technicians (events_of sample_events (work_order_id w))))" ..
  note r = c [THEN conjunct1]
  note l = c [THEN conjunct2, THEN conjunct2, THEN conjunct2, THEN conjunct2, THEN conjunct1]
  have e: "build_work_orders sample_events =
      Inr \<lparr>has_technicians = True,
           rows =
             [\<lparr>work_order_id = 1, equipment_id = ''CNC-01'', product_line = ''LINE-A'',
               symptom_code = ''BEARING_WEAR'', description = ''Bearing noise'',
               start_ts = (2024, 7, 3, 0), end_ts = (2024, 7, 4, 600),
               technicians = [''Alice'', ''Bob''],
               comments = ''opened'' @ newline @ ''greased'' @ newline @ ''closed'',
               n_updates = 3, start_date = (2024, 7, 3), end_date = (2024, 7, 4)\<rparr>,
              \<lparr>work_order_id = 2, equipment_id = ''CNC-01'', product_line = ''LINE-A'',
               symptom_code = ''BEARING_WEAR'', description = ''Bearing noise'',
               start_ts = (2024, 7, 9, 0), end_ts = (2024, 7, 9, 3600),
               technicians = [''Carol''], comments = ''checked'',
               n_updates = 1, start_date = (2024, 7, 9), end_date = (2024, 7, 9)\<rparr>]\<rparr>"
    by code_simp
  have rw: "rows wo =
             [\<lparr>work_order_id = 1, equipment_id = ''CNC-01'', product_line = ''LINE-A'',
               symptom_code = ''BEARING_WEAR'', description = ''Bearing noise'',
               start_ts = (2024, 7, 3, 0), end_ts = (2024, 7, 4, 600),
               technicians = [''Alice'', ''Bob''],
               comments = ''opened'' @ newline @ ''greased'' @ newline @ ''closed'',
               n_updates = 3, start_date = (2024, 7, 3), end_date = (2024, 7, 4)\<rparr>,
              \<lparr>work_order_id = 2, equipment_id = ''CNC-01'', product_line = ''LINE-A'',
               symptom_code = ''BEARING_WEAR'', description = ''Bearing noise'',
               start_ts = (2024, 7, 9, 0), end_ts = (2024, 7, 9, 3600),
               technicians = [''Carol''], comments = ''checked'',
               n_updates = 1, start_date = (2024, 7, 9), end_date = (2024, 7, 9)\<rparr>]"
    using e unfolding r by simp
  show ?thesis
  proof (intro conjI exI [of _ wo])
    show "valid_events sample_events" by (rule v)
    show "build_work_orders sample_events = Inr wo" by (rule r)
    show "map work_order_id (rows wo) = [1, 2]" unfolding rw by simp
    show "map start_ts (rows wo) = [(2024, 7, 3, 0), (2024, 7, 9, 0)]" unfolding rw by simp
    show "map end_ts (rows wo) = [(2024, 7, 4, 600), (2024, 7, 9, 3600)]"
      unfolding rw by simp
    show "map technicians (rows wo) = [[''Alice'', ''Bob''], [''Carol'']]"
      unfolding rw by simp
    show "length (rows wo) = card (ev_work_order_id ` set (ev_rows sample_events))"
      by (rule l)
  qed
qed

end
